theory Spec2Isabelle
  imports Main "HOL-Library.Log_Nat" "HOL-Library.Char_ord" "HOL-Library.List_Lexorder"
begin

section \<open>Text and the JSON codec of the store\<close>

text \<open>
  Plain text that the tracker only copies and compares (identifiers, titles, funders,
  timestamps, the text of a column) is a \<open>string\<close>. The items of the list-valued
  fields (requirements, reporting dates, contacts, documents) pass through
  \<^verbatim>\<open>json.dumps\<close> and \<^verbatim>\<open>json.loads\<close>, which treat a Python \<^verbatim>\<open>str\<close> as a sequence of
  Unicode code points; such an item is a list of code points, each below \<open>0x110000\<close>.
\<close>

type_synonym pystr = "nat list"

definition valid_str :: "pystr \<Rightarrow> bool" where
  "valid_str s = (\<forall>c \<in> set s. c < 0x110000)"

abbreviation QUOTE :: char where "QUOTE \<equiv> CHR 0x22"
abbreviation BACKSLASH :: char where "BACKSLASH \<equiv> CHR 0x5C"

text \<open>The literal of a code point list from an ASCII string, for examples.\<close>

definition str :: "string \<Rightarrow> pystr" where
  "str s = map of_char s"

subsection \<open>Encoding: \<^verbatim>\<open>json.dumps\<close> on a list of strings\<close>

text \<open>One lower-case hexadecimal digit, and \<^verbatim>\<open>'{0:04x}'.format(n)\<close> for \<open>n < 0x10000\<close>.\<close>

definition hex_digit :: "nat \<Rightarrow> char" where
  "hex_digit d = (if d < 10 then char_of (48 + d) else char_of (87 + d))"

definition hex4 :: "nat \<Rightarrow> string" where
  "hex4 n = [hex_digit (n div 4096 mod 16), hex_digit (n div 256 mod 16),
             hex_digit (n div 16 mod 16), hex_digit (n mod 16)]"

definition u_escape :: "nat \<Rightarrow> string" where
  "u_escape n = BACKSLASH # CHR ''u'' # hex4 n"

text \<open>
  \<^verbatim>\<open>py_encode_basestring_ascii\<close>: the regular expression \<^verbatim>\<open>([\\"]|[^\ -~])\<close> selects the
  backslash, the double quote and every code point outside space..tilde; the table
  \<^verbatim>\<open>ESCAPE_DCT\<close> gives the short escapes, the rest is \<^verbatim>\<open>\uXXXX\<close>, a code point from
  \<open>0x10000\<close> on as a surrogate pair. The source computes the pair as
  \<^verbatim>\<open>0xd800 | ((n >> 10) & 0x3ff)\<close> and \<^verbatim>\<open>0xdc00 | (n & 0x3ff)\<close>; the bits of the two operands
  of each \<^verbatim>\<open>|\<close> are disjoint, so it is the sum written here.
\<close>

definition escape_char :: "nat \<Rightarrow> string" where
  "escape_char c =
     (if c = 0x5C then [BACKSLASH, BACKSLASH]
      else if c = 0x22 then [BACKSLASH, QUOTE]
      else if c = 0x08 then [BACKSLASH, CHR ''b'']
      else if c = 0x0C then [BACKSLASH, CHR ''f'']
      else if c = 0x0A then [BACKSLASH, CHR ''n'']
      else if c = 0x0D then [BACKSLASH, CHR ''r'']
      else if c = 0x09 then [BACKSLASH, CHR ''t'']
      else if 0x20 \<le> c \<and> c \<le> 0x7E then [char_of c]
      else if c < 0x10000 then u_escape c
      else (let n = c - 0x10000;
                s1 = 0xD800 + (n div 1024) mod 1024;
                s2 = 0xDC00 + n mod 1024
            in u_escape s1 @ u_escape s2))"

definition encode_basestring_ascii :: "pystr \<Rightarrow> string" where
  "encode_basestring_ascii s = QUOTE # concat (map escape_char s) @ [QUOTE]"

text \<open>The items joined by the default item separator \<^verbatim>\<open>', '\<close>.\<close>

fun join_items :: "string list \<Rightarrow> string" where
  "join_items [] = []"
| "join_items [x] = x"
| "join_items (x # y # ys) = x @ '', '' @ join_items (y # ys)"

definition json_dumps :: "pystr list \<Rightarrow> string" where
  "json_dumps xs =
     (if xs = [] then ''[]''
      else ''['' @ join_items (map encode_basestring_ascii xs) @ '']'')"

subsection \<open>Decoding: \<^verbatim>\<open>json.loads\<close> on the text of a list of strings\<close>

text \<open>
  The decoder is the scanner of CPython's \<^verbatim>\<open>json\<close> module restricted to the values the
  store writes: an array whose items are strings. On any other text (malformed JSON, or
  a JSON value of another shape, which the tracker never writes into these columns) the
  model gives \<open>None\<close>; for malformed text the library raises \<^verbatim>\<open>JSONDecodeError\<close>.
\<close>

definition hex_val :: "char \<Rightarrow> nat option" where
  "hex_val c =
     (let n = (of_char c :: nat) in
      if 48 \<le> n \<and> n \<le> 57 then Some (n - 48)
      else if 97 \<le> n \<and> n \<le> 102 then Some (n - 87)
      else if 65 \<le> n \<and> n \<le> 70 then Some (n - 55)
      else None)"

text \<open>\<^verbatim>\<open>_decode_uXXXX\<close>: the four hexadecimal digits after \<^verbatim>\<open>\u\<close>, and the rest of the text.\<close>

fun decode_uXXXX :: "string \<Rightarrow> (nat \<times> string) option" where
  "decode_uXXXX (a # b # c # d # rest) =
     (case (hex_val a, hex_val b, hex_val c, hex_val d) of
        (Some x, Some y, Some z, Some w) \<Rightarrow> Some (4096 * x + 256 * y + 16 * z + w, rest)
      | _ \<Rightarrow> None)"
| "decode_uXXXX _ = None"

text \<open>The table \<^verbatim>\<open>BACKSLASH\<close> of the decoder: the character after a backslash.\<close>

definition unescape :: "char \<Rightarrow> nat option" where
  "unescape e =
     (if e = QUOTE then Some 0x22
      else if e = BACKSLASH then Some 0x5C
      else if e = CHR ''/'' then Some 0x2F
      else if e = CHR ''b'' then Some 0x08
      else if e = CHR ''f'' then Some 0x0C
      else if e = CHR ''n'' then Some 0x0A
      else if e = CHR ''r'' then Some 0x0D
      else if e = CHR ''t'' then Some 0x09
      else None)"

definition cons_result :: "nat \<Rightarrow> (pystr \<times> string) option \<Rightarrow> (pystr \<times> string) option" where
  "cons_result c r = (case r of None \<Rightarrow> None | Some (s, rest) \<Rightarrow> Some (c # s, rest))"

text \<open>
  \<^verbatim>\<open>scanstring\<close> (strict mode) from the character after the opening quote: the decoded
  string and the text after the closing quote. A \<^verbatim>\<open>\uXXXX\<close> escape of a high surrogate
  that is directly followed by a \<^verbatim>\<open>\uXXXX\<close> escape of a low surrogate is decoded as the one
  code point the pair stands for.
\<close>

function scanstring :: "string \<Rightarrow> (pystr \<times> string) option" where
  "scanstring [] = None"
| "scanstring (c # cs) =
     (if c = QUOTE then Some ([], cs)
      else if c = BACKSLASH then
        (case cs of
           [] \<Rightarrow> None
         | e # cs' \<Rightarrow>
             if e = CHR ''u'' then
               (case decode_uXXXX cs' of
                  None \<Rightarrow> None
                | Some (uni, cs'') \<Rightarrow>
                    if 0xD800 \<le> uni \<and> uni \<le> 0xDBFF \<and> take 2 cs'' = [BACKSLASH, CHR ''u''] then
                      (case decode_uXXXX (drop 2 cs'') of
                         None \<Rightarrow> None
                       | Some (uni2, cs3) \<Rightarrow>
                           if 0xDC00 \<le> uni2 \<and> uni2 \<le> 0xDFFF then
                             cons_result (0x10000 + ((uni - 0xD800) * 1024 + (uni2 - 0xDC00)))
                               (scanstring cs3)
                           else cons_result uni (scanstring cs''))
                    else cons_result uni (scanstring cs''))
             else
               (case unescape e of
                  None \<Rightarrow> None
                | Some ch \<Rightarrow> cons_result ch (scanstring cs')))
      else if (of_char c :: nat) < 0x20 then None
      else cons_result (of_char c) (scanstring cs))"
  by pat_completeness auto

lemma decode_uXXXX_length: "decode_uXXXX s = Some (n, r) \<Longrightarrow> length s = length r + 4"
  by (induction s rule: decode_uXXXX.induct) (auto split: option.splits)

termination scanstring
proof (relation "measure length", goal_cases)
  case 1
  show ?case by simp
next
  case (2 c cs e cs' p uni cs'' p2 uni2 cs3)
  from 2 have "length cs' = length cs'' + 4" "length (drop 2 cs'') = length cs3 + 4"
    by (auto dest: decode_uXXXX_length)
  with 2 show ?case by simp
next
  case (3 c cs e cs' p uni cs'' p2 uni2 cs3)
  from 3 have "length cs' = length cs'' + 4" by (auto dest: decode_uXXXX_length)
  with 3 show ?case by simp
next
  case (4 c cs e cs' p uni cs'')
  from 4 have "length cs' = length cs'' + 4" by (auto dest: decode_uXXXX_length)
  with 4 show ?case by simp
next
  case 5
  then show ?case by simp
next
  case 6
  then show ?case by simp
qed

text \<open>The white space of the decoder: space, tab, line feed, carriage return.\<close>

definition is_ws :: "char \<Rightarrow> bool" where
  "is_ws c = (c = CHR '' '' \<or> c = CHR 0x09 \<or> c = CHR 0x0A \<or> c = CHR 0x0D)"

definition skip_ws :: "string \<Rightarrow> string" where
  "skip_ws s = dropWhile is_ws s"

lemma scanstring_length: "scanstring s = Some (v, r) \<Longrightarrow> length r < length s"
proof (induction s arbitrary: v r rule: scanstring.induct)
  case 1
  then show ?case by simp
next
  case (2 c cs)
  show ?case
    using "2.prems" "2.IH"
    by (fastforce simp: cons_result_def
        split: if_splits list.splits option.splits prod.splits
        dest!: decode_uXXXX_length)
qed

text \<open>
  The loop of \<^verbatim>\<open>JSONArray\<close> from the position of an item: the item (a string), white
  space, then \<^verbatim>\<open>]\<close> or \<^verbatim>\<open>,\<close>, white space and the next item.
\<close>

function parse_items :: "string \<Rightarrow> (pystr list \<times> string) option" where
  "parse_items s =
     (case s of
        [] \<Rightarrow> None
      | c # r \<Rightarrow>
          if c \<noteq> QUOTE then None
          else
            (case scanstring r of
               None \<Rightarrow> None
             | Some (v, r') \<Rightarrow>
                 (case skip_ws r' of
                    [] \<Rightarrow> None
                  | d # r'' \<Rightarrow>
                      if d = CHR '']'' then Some ([v], r'')
                      else if d = CHR '','' then
                        (case parse_items (skip_ws r'') of
                           None \<Rightarrow> None
                         | Some (vs, rest) \<Rightarrow> Some (v # vs, rest))
                      else None)))"
  by pat_completeness auto

lemma skip_ws_length: "length (skip_ws s) \<le> length s"
  by (simp add: skip_ws_def length_dropWhile_le)

termination parse_items
proof (relation "measure length", goal_cases)
  case 1
  show ?case by simp
next
  case (2 s c r p v r' d r'')
  have "length (skip_ws r'') \<le> length r''" by (rule skip_ws_length)
  moreover have "length (d # r'') \<le> length r'"
    using skip_ws_length [of r'] 2 by simp
  moreover have "length r' < length r"
    using 2 by (auto dest: scanstring_length)
  ultimately show ?case using 2 by simp
qed

text \<open>
  \<^verbatim>\<open>json.loads\<close>: white space, \<^verbatim>\<open>[\<close>, white space, then \<^verbatim>\<open>]\<close> at once or the items; after
  the value only white space may follow (the library reports extra data otherwise).
\<close>

definition finish :: "pystr list \<Rightarrow> string \<Rightarrow> pystr list option" where
  "finish vs r = (if skip_ws r = [] then Some vs else None)"

definition json_loads :: "string \<Rightarrow> pystr list option" where
  "json_loads s =
     (case skip_ws s of
        [] \<Rightarrow> None
      | c # r \<Rightarrow>
          if c \<noteq> CHR ''['' then None
          else
            (case skip_ws r of
               [] \<Rightarrow> None
             | d # r2 \<Rightarrow>
                 if d = CHR '']'' then finish [] r2
                 else
                   (case parse_items (d # r2) of
                      None \<Rightarrow> None
                    | Some (vs, r3) \<Rightarrow> finish vs r3)))"

subsection \<open>What the decoder reads back\<close>

text \<open>
  High and low surrogates, the code point of a pair (\<^verbatim>\<open>Py_UNICODE_JOIN_SURROGATES\<close>), and
  the string that the decoder reads back from the encoding of a string \<open>s\<close>: a high
  surrogate of \<open>s\<close> that is directly followed by a low surrogate is read back together
  with it as one code point. (\<open>canon\<close> is the identity on code points; it only makes
  \<open>rejoin\<close> describe the decoder on every list of numbers.)
\<close>

definition is_high :: "nat \<Rightarrow> bool" where
  "is_high c = (0xD800 \<le> c \<and> c \<le> 0xDBFF)"

definition is_low :: "nat \<Rightarrow> bool" where
  "is_low c = (0xDC00 \<le> c \<and> c \<le> 0xDFFF)"

definition join_pair :: "nat \<Rightarrow> nat \<Rightarrow> nat" where
  "join_pair h l = 0x10000 + ((h - 0xD800) * 1024 + (l - 0xDC00))"

definition canon :: "nat \<Rightarrow> nat" where
  "canon c = (if c < 0x10000 then c else 0x10000 + (c - 0x10000) mod 0x100000)"

fun rejoin :: "pystr \<Rightarrow> pystr" where
  "rejoin [] = []"
| "rejoin [c] = [canon c]"
| "rejoin (c # d # cs) =
     (if is_high c \<and> is_low d then join_pair c d # rejoin cs else canon c # rejoin (d # cs))"

text \<open>A string in which no high surrogate is directly followed by a low surrogate.\<close>

fun pair_free :: "pystr \<Rightarrow> bool" where
  "pair_free [] = True"
| "pair_free [c] = True"
| "pair_free (c # d # cs) = (\<not> (is_high c \<and> is_low d) \<and> pair_free (d # cs))"

section \<open>Numbers\<close>







section \<open>Data model\<close>

datatype GrantType = FEDERAL | STATE | PRIVATE | FOUNDATION

datatype GrantStatus = IDENTIFIED | APPLYING | SUBMITTED | AWARDED | REJECTED | REPORTING | CLOSED

text \<open>The \<^verbatim>\<open>.value\<close> of a member, and the lookup by value (\<open>None\<close>: \<^verbatim>\<open>ValueError\<close>).\<close>

fun type_value :: "GrantType \<Rightarrow> string" where
  "type_value FEDERAL = ''federal''"
| "type_value STATE = ''state''"
| "type_value PRIVATE = ''private''"
| "type_value FOUNDATION = ''foundation''"

fun status_value :: "GrantStatus \<Rightarrow> string" where
  "status_value IDENTIFIED = ''identified''"
| "status_value APPLYING = ''applying''"
| "status_value SUBMITTED = ''submitted''"
| "status_value AWARDED = ''awarded''"
| "status_value REJECTED = ''rejected''"
| "status_value REPORTING = ''reporting''"
| "status_value CLOSED = ''closed''"

definition GrantType_of :: "string \<Rightarrow> GrantType option" where
  "GrantType_of v =
     (if v = ''federal'' then Some FEDERAL
      else if v = ''state'' then Some STATE
      else if v = ''private'' then Some PRIVATE
      else if v = ''foundation'' then Some FOUNDATION
      else None)"

definition GrantStatus_of :: "string \<Rightarrow> GrantStatus option" where
  "GrantStatus_of v =
     (if v = ''identified'' then Some IDENTIFIED
      else if v = ''applying'' then Some APPLYING
      else if v = ''submitted'' then Some SUBMITTED
      else if v = ''awarded'' then Some AWARDED
      else if v = ''rejected'' then Some REJECTED
      else if v = ''reporting'' then Some REPORTING
      else if v = ''closed'' then Some CLOSED
      else None)"

text \<open>The seven values a status column may hold.\<close>

definition status_values :: "string list" where
  "status_values = [''identified'', ''applying'', ''submitted'', ''awarded'', ''rejected'',
                    ''reporting'', ''closed'']"

text \<open>The dataclasses (fields prefixed, as several classes share field names).\<close>

record Grant =
  g_id :: string
  g_title :: string
  g_funder :: string
  g_amount :: rat
  g_type :: GrantType
  g_purpose :: string
  g_deadline :: "string option"
  g_status :: GrantStatus
  g_requirements :: "pystr list"
  g_reporting_dates :: "pystr list"
  g_contacts :: "pystr list"
  g_award_amount :: "rat option"
  g_notes :: string
  g_assigned_to :: string
  g_created_at :: string
  g_updated_at :: string

record Submission =
  sub_id :: string
  sub_grant_id :: string
  sub_submitted_at :: string
  sub_notes :: string
  sub_submitted_by :: string
  sub_documents :: "pystr list"
  sub_created_at :: string

text \<open>A note; a row of the table \<^verbatim>\<open>grant_notes\<close> has the same columns.\<close>

record GrantNote =
  n_id :: string
  n_grant_id :: string
  n_content :: string
  n_author :: string
  n_created_at :: string

text \<open>
  The rows of the tables \<^verbatim>\<open>grants\<close> and \<^verbatim>\<open>submissions\<close>: the type, the status and the
  lists are text columns.
\<close>

record grant_row =
  r_id :: string
  r_title :: string
  r_funder :: string
  r_amount :: rat
  r_type :: string
  r_purpose :: string
  r_deadline :: "string option"
  r_status :: string
  r_requirements :: string
  r_reporting_dates :: string
  r_contacts :: string
  r_award_amount :: "rat option"
  r_notes :: string
  r_assigned_to :: string
  r_created_at :: string
  r_updated_at :: string

record submission_row =
  s_id :: string
  s_grant_id :: string
  s_submitted_at :: string
  s_notes :: string
  s_submitted_by :: string
  s_documents :: string
  s_created_at :: string

text \<open>
  The database: each table is the list of its rows in insertion order. The schema
  declares \<^verbatim>\<open>REFERENCES grants(id)\<close> on the two owner columns, but the connection never
  turns foreign-key enforcement on (SQLite leaves it off by default), so an insert
  checks the primary key only.
\<close>

record db =
  grants :: "grant_row list"
  submissions :: "submission_row list"
  grant_notes :: "GrantNote list"

definition init_db :: db where
  "init_db = \<lparr>grants = [], submissions = [], grant_notes = []\<rparr>"

datatype error = IntegrityError | ValueError | JSONDecodeError

section \<open>The store's statements\<close>

text \<open>An \<^verbatim>\<open>INSERT\<close>: \<open>None\<close> when the primary key is taken (\<^verbatim>\<open>IntegrityError\<close>).\<close>

definition insert_grant :: "db \<Rightarrow> grant_row \<Rightarrow> db option" where
  "insert_grant d row =
     (if r_id row \<in> set (map r_id (grants d)) then None
      else Some (d\<lparr>grants := grants d @ [row]\<rparr>))"

definition insert_submission :: "db \<Rightarrow> submission_row \<Rightarrow> db option" where
  "insert_submission d row =
     (if s_id row \<in> set (map s_id (submissions d)) then None
      else Some (d\<lparr>submissions := submissions d @ [row]\<rparr>))"

definition insert_note :: "db \<Rightarrow> GrantNote \<Rightarrow> db option" where
  "insert_note d row =
     (if n_id row \<in> set (map n_id (grant_notes d)) then None
      else Some (d\<lparr>grant_notes := grant_notes d @ [row]\<rparr>))"

text \<open>\<^verbatim>\<open>UPDATE grants SET ... WHERE id = ?\<close>.\<close>

definition update_grant :: "(grant_row \<Rightarrow> grant_row) \<Rightarrow> string \<Rightarrow> db \<Rightarrow> db" where
  "update_grant f gid d = d\<lparr>grants := map (\<lambda>r. if r_id r = gid then f r else r) (grants d)\<rparr>"

text \<open>\<^verbatim>\<open>x or []\<close> on an optional list.\<close>

definition or_empty :: "'a list option \<Rightarrow> 'a list" where
  "or_empty x = (case x of None \<Rightarrow> [] | Some l \<Rightarrow> l)"

definition loads_or_raise :: "string \<Rightarrow> error + pystr list" where
  "loads_or_raise s = (case json_loads s of None \<Rightarrow> Inl JSONDecodeError | Some v \<Rightarrow> Inr v)"

text \<open>\<^verbatim>\<open>_row_to_grant\<close>; the arguments of the constructor are evaluated from left to right.\<close>

definition row_to_grant :: "grant_row \<Rightarrow> error + Grant" where
  "row_to_grant row =
     (case GrantType_of (r_type row) of
        None \<Rightarrow> Inl ValueError
      | Some ty \<Rightarrow>
     (case GrantStatus_of (r_status row) of
        None \<Rightarrow> Inl ValueError
      | Some st \<Rightarrow>
     (case loads_or_raise (r_requirements row) of
        Inl e \<Rightarrow> Inl e
      | Inr reqs \<Rightarrow>
     (case loads_or_raise (r_reporting_dates row) of
        Inl e \<Rightarrow> Inl e
      | Inr dates \<Rightarrow>
     (case loads_or_raise (r_contacts row) of
        Inl e \<Rightarrow> Inl e
      | Inr cts \<Rightarrow>
          Inr \<lparr>g_id = r_id row, g_title = r_title row, g_funder = r_funder row,
               g_amount = r_amount row, g_type = ty, g_purpose = r_purpose row,
               g_deadline = r_deadline row, g_status = st, g_requirements = reqs,
               g_reporting_dates = dates, g_contacts = cts,
               g_award_amount = r_award_amount row, g_notes = r_notes row,
               g_assigned_to = r_assigned_to row, g_created_at = r_created_at row,
               g_updated_at = r_updated_at row\<rparr>)))))"

section \<open>The tracker service\<close>

text \<open>
  Every operation takes the database and returns its result with the database after
  it. What the code reads from its environment is an argument: \<open>uid\<close> is the value of
  \<^verbatim>\<open>str(uuid.uuid4())\<close>, \<open>now\<close> and \<open>created\<close> are values of \<^verbatim>\<open>datetime.utcnow().isoformat()\<close>.
  A statement that raises inside \<^verbatim>\<open>with self.conn:\<close> is rolled back, so the database of
  an \<open>Inl\<close> result is the one before that block.
\<close>

text \<open>The parameters of \<^verbatim>\<open>INSERT INTO grants\<close>, from the fields of the grant.\<close>

definition grant_to_row :: "Grant \<Rightarrow> grant_row" where
  "grant_to_row grant =
     \<lparr>r_id = g_id grant, r_title = g_title grant, r_funder = g_funder grant,
      r_amount = g_amount grant, r_type = type_value (g_type grant),
      r_purpose = g_purpose grant, r_deadline = g_deadline grant,
      r_status = status_value (g_status grant),
      r_requirements = json_dumps (g_requirements grant),
      r_reporting_dates = json_dumps (g_reporting_dates grant),
      r_contacts = json_dumps (g_contacts grant),
      r_award_amount = g_award_amount grant, r_notes = g_notes grant,
      r_assigned_to = g_assigned_to grant, r_created_at = g_created_at grant,
      r_updated_at = g_updated_at grant\<rparr>"

definition identify ::
  "db \<Rightarrow> string \<Rightarrow> string \<Rightarrow> string \<Rightarrow> string \<Rightarrow> rat \<Rightarrow> string option \<Rightarrow> GrantType \<Rightarrow> string \<Rightarrow>
   pystr list option \<Rightarrow> pystr list option \<Rightarrow> string \<Rightarrow> (error + Grant) \<times> db" where
  "identify d uid now title funder amount deadline grant_type purpose requirements contacts
     assigned_to =
     (let grant = \<lparr>g_id = uid, g_title = title, g_funder = funder, g_amount = amount,
                    g_type = grant_type, g_purpose = purpose, g_deadline = deadline,
                    g_status = IDENTIFIED, g_requirements = or_empty requirements,
                    g_reporting_dates = [], g_contacts = or_empty contacts,
                    g_award_amount = None, g_notes = [], g_assigned_to = assigned_to,
                    g_created_at = now, g_updated_at = now\<rparr>
      in case insert_grant d (grant_to_row grant) of
           None \<Rightarrow> (Inl IntegrityError, d)
         | Some d' \<Rightarrow> (Inr grant, d'))"

definition get_grant :: "db \<Rightarrow> string \<Rightarrow> error + Grant option" where
  "get_grant d grant_id =
     (case find (\<lambda>r. r_id r = grant_id) (grants d) of
        None \<Rightarrow> Inr None
      | Some row \<Rightarrow> (case row_to_grant row of Inl e \<Rightarrow> Inl e | Inr g \<Rightarrow> Inr (Some g)))"

text \<open>\<^verbatim>\<open>_transition\<close>: two updates in one transaction, the second when \<open>notes\<close> is not empty.\<close>

definition transition ::
  "db \<Rightarrow> string \<Rightarrow> GrantStatus \<Rightarrow> string \<Rightarrow> string \<Rightarrow> (error + Grant option) \<times> db" where
  "transition d grant_id new_status notes now =
     (case get_grant d grant_id of
        Inl e \<Rightarrow> (Inl e, d)
      | Inr None \<Rightarrow> (Inr None, d)
      | Inr (Some g) \<Rightarrow>
          (let d1 = update_grant (\<lambda>r. r\<lparr>r_status := status_value new_status,
                                         r_updated_at := now\<rparr>) grant_id d;
               d2 = (if notes \<noteq> [] then update_grant (\<lambda>r. r\<lparr>r_notes := notes\<rparr>) grant_id d1
                     else d1)
           in (get_grant d2 grant_id, d2)))"

definition apply_grant ::
  "db \<Rightarrow> string \<Rightarrow> string \<Rightarrow> string \<Rightarrow> string \<Rightarrow> (error + Grant option) \<times> db" where
  "apply_grant d grant_id notes assigned_to now = transition d grant_id APPLYING notes now"

text \<open>
  \<^verbatim>\<open>submit\<close> reads the clock three times: \<open>now\<close> for \<^verbatim>\<open>submitted_at\<close>, \<open>created\<close> for the
  default of \<^verbatim>\<open>created_at\<close>, \<open>now2\<close> inside \<^verbatim>\<open>_transition\<close>.
\<close>

definition submit ::
  "db \<Rightarrow> string \<Rightarrow> string \<Rightarrow> string \<Rightarrow> pystr list option \<Rightarrow> string \<Rightarrow> string \<Rightarrow> string \<Rightarrow> string \<Rightarrow>
   (error + Grant option) \<times> db" where
  "submit d grant_id notes submitted_by documents uid now created now2 =
     (case get_grant d grant_id of
        Inl e \<Rightarrow> (Inl e, d)
      | Inr None \<Rightarrow> (Inr None, d)
      | Inr (Some g) \<Rightarrow>
          (let sub = \<lparr>sub_id = uid, sub_grant_id = grant_id, sub_submitted_at = now,
                       sub_notes = notes, sub_submitted_by = submitted_by,
                       sub_documents = or_empty documents, sub_created_at = created\<rparr>;
               row = \<lparr>s_id = sub_id sub, s_grant_id = sub_grant_id sub,
                       s_submitted_at = sub_submitted_at sub, s_notes = sub_notes sub,
                       s_submitted_by = sub_submitted_by sub,
                       s_documents = json_dumps (sub_documents sub),
                       s_created_at = sub_created_at sub\<rparr>
           in case insert_submission d row of
                None \<Rightarrow> (Inl IntegrityError, d)
              | Some d1 \<Rightarrow> transition d1 grant_id SUBMITTED [] now2))"

definition award ::
  "db \<Rightarrow> string \<Rightarrow> rat option \<Rightarrow> pystr list option \<Rightarrow> string \<Rightarrow> (error + Grant option) \<times> db" where
  "award d grant_id award_amount reporting_dates now =
     (case get_grant d grant_id of
        Inl e \<Rightarrow> (Inl e, d)
      | Inr None \<Rightarrow> (Inr None, d)
      | Inr (Some grant) \<Rightarrow>
          (let actual = (case award_amount of Some a \<Rightarrow> a | None \<Rightarrow> g_amount grant);
               dates_json = json_dumps (or_empty reporting_dates);
               d1 = update_grant (\<lambda>r. r\<lparr>r_status := ''awarded'', r_award_amount := Some actual,
                                         r_reporting_dates := dates_json,
                                         r_updated_at := now\<rparr>) grant_id d
           in (get_grant d1 grant_id, d1)))"

definition reject :: "db \<Rightarrow> string \<Rightarrow> string \<Rightarrow> string \<Rightarrow> (error + Grant option) \<times> db" where
  "reject d grant_id notes now = transition d grant_id REJECTED notes now"

definition start_reporting :: "db \<Rightarrow> string \<Rightarrow> string \<Rightarrow> (error + Grant option) \<times> db" where
  "start_reporting d grant_id now = transition d grant_id REPORTING [] now"

definition close :: "db \<Rightarrow> string \<Rightarrow> string \<Rightarrow> (error + Grant option) \<times> db" where
  "close d grant_id now = transition d grant_id CLOSED [] now"

definition add_note ::
  "db \<Rightarrow> string \<Rightarrow> string \<Rightarrow> string \<Rightarrow> string \<Rightarrow> string \<Rightarrow> (error + GrantNote) \<times> db" where
  "add_note d grant_id content author uid created =
     (let note = \<lparr>n_id = uid, n_grant_id = grant_id, n_content = content, n_author = author,
                   n_created_at = created\<rparr>
      in case insert_note d note of
           None \<Rightarrow> (Inl IntegrityError, d)
         | Some d' \<Rightarrow> (Inr note, d'))"

text \<open>
  \<^verbatim>\<open>get_submissions\<close>: the rows of one grant, \<^verbatim>\<open>ORDER BY submitted_at DESC\<close> (SQLite leaves
  the order of equal keys open; the model takes the reverse of the stable ascending
  sort), each with its documents decoded.
\<close>

definition row_to_submission :: "submission_row \<Rightarrow> error + Submission" where
  "row_to_submission r =
     (case loads_or_raise (s_documents r) of
        Inl e \<Rightarrow> Inl e
      | Inr docs \<Rightarrow>
          Inr \<lparr>sub_id = s_id r, sub_grant_id = s_grant_id r, sub_submitted_at = s_submitted_at r,
               sub_notes = s_notes r, sub_submitted_by = s_submitted_by r,
               sub_documents = docs, sub_created_at = s_created_at r\<rparr>)"

fun collect :: "(error + 'a) list \<Rightarrow> error + 'a list" where
  "collect [] = Inr []"
| "collect (x # xs) =
     (case x of
        Inl e \<Rightarrow> Inl e
      | Inr v \<Rightarrow> (case collect xs of Inl e \<Rightarrow> Inl e | Inr vs \<Rightarrow> Inr (v # vs)))"

definition get_submissions :: "db \<Rightarrow> string \<Rightarrow> error + Submission list" where
  "get_submissions d grant_id =
     collect (map row_to_submission
       (rev (sort_key s_submitted_at (filter (\<lambda>r. s_grant_id r = grant_id) (submissions d)))))"

subsection \<open>Analytics\<close>








section \<open>Reachable states\<close>

text \<open>One call of a mutating operation of the public interface, with any arguments.\<close>

inductive step :: "db \<Rightarrow> db \<Rightarrow> bool" where
  step_identify:
    "step d (snd (identify d uid now title funder amount deadline grant_type purpose
                    requirements contacts assigned_to))"
| step_apply: "step d (snd (apply_grant d grant_id notes assigned_to now))"
| step_submit: "step d (snd (submit d grant_id notes submitted_by documents uid now created now2))"
| step_award: "step d (snd (award d grant_id award_amount reporting_dates now))"
| step_reject: "step d (snd (reject d grant_id notes now))"
| step_start_reporting: "step d (snd (start_reporting d grant_id now))"
| step_close: "step d (snd (close d grant_id now))"
| step_add_note: "step d (snd (add_note d grant_id content author uid created))"

inductive reachable :: "db \<Rightarrow> bool" where
  reachable_init: "reachable init_db"
| reachable_step: "reachable d \<Longrightarrow> step d d' \<Longrightarrow> reachable d'"

section \<open>Well-formed databases\<close>

text \<open>
  A row that \<^verbatim>\<open>_row_to_grant\<close> can read, and the invariant of the database: the primary
  key of the grants is unique, every grant row can be read, and every submission is
  owned by a grant of the table.
\<close>

definition row_ok :: "grant_row \<Rightarrow> bool" where
  "row_ok r = (\<not> isl (row_to_grant r))"

definition db_inv :: "db \<Rightarrow> bool" where
  "db_inv d =
     (distinct (map r_id (grants d)) \<and> list_all row_ok (grants d) \<and>
      list_all (\<lambda>s. s_grant_id s \<in> set (map r_id (grants d))) (submissions d))"

text \<open>The row of a grant, as \<^verbatim>\<open>SELECT * FROM grants WHERE id = ?\<close> fetches it.\<close>

definition stored :: "db \<Rightarrow> string \<Rightarrow> grant_row option" where
  "stored d grant_id = find (\<lambda>r. r_id r = grant_id) (grants d)"

text \<open>
  The row and the grant after the statements of \<^verbatim>\<open>_transition\<close>, and the row after the
  statement of \<^verbatim>\<open>award\<close> (used to state what the operations do).
\<close>

definition moved_row :: "GrantStatus \<Rightarrow> string \<Rightarrow> string \<Rightarrow> grant_row \<Rightarrow> grant_row" where
  "moved_row st notes now r =
     (if notes \<noteq> [] then r\<lparr>r_status := status_value st, r_updated_at := now, r_notes := notes\<rparr>
      else r\<lparr>r_status := status_value st, r_updated_at := now\<rparr>)"

definition moved_grant :: "GrantStatus \<Rightarrow> string \<Rightarrow> string \<Rightarrow> Grant \<Rightarrow> Grant" where
  "moved_grant st notes now g =
     (if notes \<noteq> [] then g\<lparr>g_status := st, g_updated_at := now, g_notes := notes\<rparr>
      else g\<lparr>g_status := st, g_updated_at := now\<rparr>)"

definition awarded_row :: "rat \<Rightarrow> string \<Rightarrow> string \<Rightarrow> grant_row \<Rightarrow> grant_row" where
  "awarded_row actual dates_json now r =
     r\<lparr>r_status := ''awarded'', r_award_amount := Some actual,
       r_reporting_dates := dates_json, r_updated_at := now\<rparr>"

subsection \<open>Example states\<close>

text \<open>
  The states of the repository's tests: one grant identified in an empty database
  (\<^verbatim>\<open>gt.identify("Grant", "Funder", 50_000)\<close>), and two grants of one funder of which the
  first is then awarded and the second rejected (\<^verbatim>\<open>test_success_rate\<close>).
\<close>

definition one_grant_db :: db where
  "one_grant_db =
     snd (identify init_db ''id-1'' ''2025-01-01T00:00:00'' ''Grant'' ''Funder'' 50000 None
            FOUNDATION [] None None [])"

text \<open>The grant of \<open>one_grant_db\<close> as \<^verbatim>\<open>get_grant\<close> returns it.\<close>

definition one_grant :: Grant where
  "one_grant =
     \<lparr>g_id = ''id-1'', g_title = ''Grant'', g_funder = ''Funder'', g_amount = 50000,
      g_type = FOUNDATION, g_purpose = [], g_deadline = None, g_status = IDENTIFIED,
      g_requirements = [], g_reporting_dates = [], g_contacts = [], g_award_amount = None,
      g_notes = [], g_assigned_to = [], g_created_at = ''2025-01-01T00:00:00'',
      g_updated_at = ''2025-01-01T00:00:00''\<rparr>"

text \<open>The same grant awarded with one reporting date (\<^verbatim>\<open>test_award\<close>).\<close>

definition awarded_db :: db where
  "awarded_db =
     snd (award one_grant_db ''id-1'' (Some 45000) (Some [str ''2025-12-31''])
            ''2025-01-02T00:00:00'')"

definition awarded_grant :: Grant where
  "awarded_grant =
     one_grant\<lparr>g_status := AWARDED, g_reporting_dates := [str ''2025-12-31''],
               g_award_amount := Some 45000, g_updated_at := ''2025-01-02T00:00:00''\<rparr>"

text \<open>The grant of \<open>one_grant_db\<close> submitted once (\<^verbatim>\<open>test_submit\<close>).\<close>

definition submitted_db :: db where
  "submitted_db =
     snd (submit one_grant_db ''id-1'' [] ''Alice'' None ''sub-1'' ''2025-01-02T00:00:00''
            ''2025-01-02T00:00:01'' ''2025-01-02T00:00:02'')"

definition submitted_grant :: Grant where
  "submitted_grant = one_grant\<lparr>g_status := SUBMITTED, g_updated_at := ''2025-01-02T00:00:02''\<rparr>"



section \<open>The codec: decoding an encoded list\<close>

lemma of_char_char_of_small: "n < 256 \<Longrightarrow> (of_char (char_of n :: char) :: nat) = n"
  by (simp add: take_bit_eq_mod)

lemma hex_val_hex_digit: "d < 16 \<Longrightarrow> hex_val (hex_digit d) = Some d"
proof (cases "d < 10")
  case True
  then have "(of_char (hex_digit d) :: nat) = 48 + d"
    unfolding hex_digit_def by (simp only: if_True) (rule of_char_char_of_small, simp)
  then show ?thesis using True by (simp add: hex_val_def Let_def)
next
  case False
  assume "d < 16"
  with False have "(of_char (hex_digit d) :: nat) = 87 + d"
    unfolding hex_digit_def by (simp only: if_False) (rule of_char_char_of_small, simp)
  then show ?thesis using False \<open>d < 16\<close> by (simp add: hex_val_def Let_def)
qed

lemma hex4_value:
  assumes "(n::nat) < 65536"
  shows "4096 * (n div 4096 mod 16) + 256 * (n div 256 mod 16) + 16 * (n div 16 mod 16)
            + n mod 16 = n"
proof -
  have a: "16 * (n div 16) + n mod 16 = n" by simp
  have "n div 16 div 16 = n div 256" by (simp add: div_mult2_eq [symmetric])
  then have b: "16 * (n div 256) + n div 16 mod 16 = n div 16"
    using mult_div_mod_eq [of 16 "n div 16"] by simp
  have "n div 256 div 16 = n div 4096" by (simp add: div_mult2_eq [symmetric])
  then have c: "16 * (n div 4096) + n div 256 mod 16 = n div 256"
    using mult_div_mod_eq [of 16 "n div 256"] by simp
  have "n div 4096 < 16" using assms by (simp add: less_mult_imp_div_less)
  then have e: "n div 4096 mod 16 = n div 4096" by simp
  show ?thesis using a b c unfolding e by linarith
qed

lemma decode_hex4: "n < 65536 \<Longrightarrow> decode_uXXXX (hex4 n @ t) = Some (n, t)"
proof -
  assume n: "n < 65536"
  have "decode_uXXXX (hex4 n @ t) =
        Some (4096 * (n div 4096 mod 16) + 256 * (n div 256 mod 16) + 16 * (n div 16 mod 16)
              + n mod 16, t)"
    unfolding hex4_def by (simp add: hex_val_hex_digit del: mod_less)
  then show ?thesis by (simp only: hex4_value [OF n])
qed

lemma literal_char:
  assumes "0x20 \<le> c" "c \<le> 0x7E"
  shows "(of_char (char_of c :: char) :: nat) = c"
    and "(char_of c = QUOTE) = (c = 0x22)"
    and "(char_of c = BACKSLASH) = (c = 0x5C)"
  using assms by (simp_all add: char_of_eq_iff take_bit_nat_eq_self)

text \<open>Scanning a \<^verbatim>\<open>\uXXXX\<close> escape.\<close>

lemma scan_u_escape:
  assumes "n < 65536"
  shows "scanstring (u_escape n @ t) =
     (if is_high n \<and> take 2 t = [BACKSLASH, CHR ''u''] then
        (case decode_uXXXX (drop 2 t) of
           None \<Rightarrow> None
         | Some (uni2, cs3) \<Rightarrow>
             if is_low uni2 then cons_result (join_pair n uni2) (scanstring cs3)
             else cons_result n (scanstring t))
      else cons_result n (scanstring t))"
proof -
  have "scanstring (u_escape n @ t) =
        (case decode_uXXXX (hex4 n @ t) of
           None \<Rightarrow> None
         | Some (uni, cs'') \<Rightarrow>
             if 0xD800 \<le> uni \<and> uni \<le> 0xDBFF \<and> take 2 cs'' = [BACKSLASH, CHR ''u''] then
               (case decode_uXXXX (drop 2 cs'') of
                  None \<Rightarrow> None
                | Some (uni2, cs3) \<Rightarrow>
                    if 0xDC00 \<le> uni2 \<and> uni2 \<le> 0xDFFF then
                      cons_result (0x10000 + ((uni - 0xD800) * 1024 + (uni2 - 0xDC00)))
                        (scanstring cs3)
                    else cons_result uni (scanstring cs''))
             else cons_result uni (scanstring cs''))"
    by (simp add: u_escape_def)
  also have "\<dots> =
     (if is_high n \<and> take 2 t = [BACKSLASH, CHR ''u''] then
        (case decode_uXXXX (drop 2 t) of
           None \<Rightarrow> None
         | Some (uni2, cs3) \<Rightarrow>
             if is_low uni2 then cons_result (join_pair n uni2) (scanstring cs3)
             else cons_result n (scanstring t))
      else cons_result n (scanstring t))"
    unfolding decode_hex4 [OF assms] is_high_def is_low_def join_pair_def
    by simp
  finally show ?thesis .
qed

lemma scan_not_high:
  assumes "\<not> is_high c"
  shows "scanstring (escape_char c @ t) = cons_result (canon c) (scanstring t)"
proof (cases "c < 0x10000")
  case True
  then show ?thesis
    using assms
    by (simp add: escape_char_def scan_u_escape canon_def unescape_def literal_char)
next
  case False
  define n where "n = c - 0x10000"
  define s1 where "s1 = 0xD800 + (n div 1024) mod 1024"
  define s2 where "s2 = 0xDC00 + n mod 1024"
  have s1: "s1 < 65536" "is_high s1" and s2: "s2 < 65536" "is_low s2" "\<not> is_high s2"
    by (simp_all add: s1_def s2_def is_high_def is_low_def)
  have j: "join_pair s1 s2 = canon c"
  proof -
    have "n mod (1024 * 1024) = 1024 * (n div 1024 mod 1024) + n mod 1024"
      by (rule mod_mult2_eq)
    then have "(n div 1024) mod 1024 * 1024 + n mod 1024 = n mod 1048576"
      by simp
    then show ?thesis
      using False by (simp add: join_pair_def s1_def s2_def canon_def n_def)
  qed
  have e: "escape_char c = u_escape s1 @ u_escape s2"
    using False by (simp add: escape_char_def Let_def s1_def s2_def n_def)
  have "scanstring (u_escape s1 @ (u_escape s2 @ t)) = cons_result (join_pair s1 s2) (scanstring t)"
    using s1 s2
    by (subst scan_u_escape) (simp_all add: u_escape_def decode_hex4)
  then show ?thesis by (simp add: e j)
qed

lemma high_canon: "is_high c \<Longrightarrow> canon c = c" "is_high c \<Longrightarrow> c < 65536"
  by (simp_all add: is_high_def canon_def)

lemma low_escape: "is_low d \<Longrightarrow> escape_char d = u_escape d" "is_low d \<Longrightarrow> d < 65536"
  by (simp_all add: is_low_def escape_char_def)

lemma scan_high_end:
  "is_high c \<Longrightarrow> scanstring (escape_char c @ QUOTE # rest) = Some ([c], rest)"
  by (simp add: escape_char_def is_high_def scan_u_escape cons_result_def)

lemma scan_high_low:
  assumes "is_high c" "is_low d"
  shows "scanstring (escape_char c @ escape_char d @ t) = cons_result (join_pair c d) (scanstring t)"
proof -
  have c: "escape_char c = u_escape c" "c < 65536"
    using assms(1) by (simp_all add: escape_char_def is_high_def)
  have d: "escape_char d = u_escape d" "d < 65536"
    using assms(2) by (simp_all add: low_escape)
  have "scanstring (u_escape c @ (u_escape d @ t)) = cons_result (join_pair c d) (scanstring t)"
    using assms c(2) d(2)
    by (subst scan_u_escape) (simp_all add: u_escape_def decode_hex4)
  then show ?thesis by (simp add: c d)
qed

lemma escape_short:
  "c \<in> {0x5C, 0x22, 0x08, 0x0C, 0x0A, 0x0D, 0x09} \<Longrightarrow>
   \<exists>x. escape_char c = [BACKSLASH, x] \<and> x \<noteq> CHR ''u''"
  by (auto simp: escape_char_def)

lemma escape_literal:
  "c \<notin> {0x5C, 0x22, 0x08, 0x0C, 0x0A, 0x0D, 0x09} \<Longrightarrow> 0x20 \<le> c \<Longrightarrow> c \<le> 0x7E \<Longrightarrow>
   escape_char c = [char_of c]"
  by (simp add: escape_char_def)

lemma escape_u:
  "c \<notin> {0x5C, 0x22, 0x08, 0x0C, 0x0A, 0x0D, 0x09} \<Longrightarrow> \<not> (0x20 \<le> c \<and> c \<le> 0x7E) \<Longrightarrow>
   c < 0x10000 \<Longrightarrow> escape_char c = u_escape c"
  by (cases "0x20 \<le> c") (simp_all add: escape_char_def)

lemma starts_with_u:
  assumes "take 2 (escape_char d @ t) = [BACKSLASH, CHR ''u'']" "d < 0x10000"
  shows "escape_char d = u_escape d"
proof (cases "d \<in> {0x5C, 0x22, 0x08, 0x0C, 0x0A, 0x0D, 0x09}")
  case True
  then obtain x where "escape_char d = [BACKSLASH, x]" "x \<noteq> CHR ''u''"
    using escape_short by blast
  with assms(1) show ?thesis by simp
next
  case False
  show ?thesis
  proof (cases "0x20 \<le> d \<and> d \<le> 0x7E")
    case True
    then have "escape_char d = [char_of d]" "(char_of d :: char) \<noteq> BACKSLASH"
      using False by (simp_all add: escape_literal literal_char)
    with assms(1) show ?thesis by simp
  next
    case n: False
    show ?thesis using False n assms(2) by (rule escape_u)
  qed
qed

lemma scan_high_other:
  assumes "is_high c" "\<not> is_low d"
  shows "scanstring (escape_char c @ escape_char d @ t) = cons_result c (scanstring (escape_char d @ t))"
proof -
  have c: "escape_char c = u_escape c" "c < 65536"
    using assms(1) by (simp_all add: escape_char_def is_high_def)
  show ?thesis
  proof (cases "take 2 (escape_char d @ t) = [BACKSLASH, CHR ''u'']")
    case False
    have "scanstring (u_escape c @ (escape_char d @ t)) = cons_result c (scanstring (escape_char d @ t))"
      using False c(2) by (subst scan_u_escape) simp_all
    then show ?thesis by (simp add: c)
  next
    case True
    show ?thesis
    proof (cases "d < 0x10000")
      case d: True
      have e: "escape_char d = u_escape d"
        using True d by (rule starts_with_u)
      have "scanstring (u_escape c @ (u_escape d @ t)) = cons_result c (scanstring (u_escape d @ t))"
        using assms c(2) d
        by (subst scan_u_escape) (simp_all add: u_escape_def decode_hex4)
      then show ?thesis by (simp add: c e)
    next
      case d: False
      define n where "n = d - 0x10000"
      define s1 where "s1 = 0xD800 + (n div 1024) mod 1024"
      define s2 where "s2 = 0xDC00 + n mod 1024"
      have s1: "s1 < 65536" "\<not> is_low s1"
        by (simp_all add: s1_def is_low_def)
      have e: "escape_char d = u_escape s1 @ u_escape s2"
        using d by (simp add: escape_char_def Let_def s1_def s2_def n_def)
      have "scanstring (u_escape c @ (u_escape s1 @ u_escape s2 @ t))
              = cons_result c (scanstring (u_escape s1 @ u_escape s2 @ t))"
        using assms c(2) s1
        by (subst scan_u_escape) (simp_all add: u_escape_def decode_hex4)
      then show ?thesis by (simp add: c e)
    qed
  qed
qed

lemma scan_escaped:
  "scanstring (concat (map escape_char s) @ QUOTE # rest) = Some (rejoin s, rest)"
proof (induction s rule: rejoin.induct)
  case 1
  show ?case by simp
next
  case (2 c)
  show ?case
  proof (cases "is_high c")
    case True
    then show ?thesis by (simp add: scan_high_end high_canon)
  next
    case False
    then show ?thesis by (simp add: scan_not_high cons_result_def)
  qed
next
  case (3 c d cs)
  show ?case
  proof (cases "is_high c")
    case False
    then show ?thesis using 3 by (simp add: scan_not_high cons_result_def)
  next
    case True
    show ?thesis
    proof (cases "is_low d")
      case l: True
      then show ?thesis using True 3 by (simp add: scan_high_low cons_result_def)
    next
      case l: False
      then show ?thesis using True 3 by (simp add: scan_high_other cons_result_def high_canon)
    qed
  qed
qed

declare parse_items.simps [simp del]

lemma parse_items_quote:
  "parse_items (QUOTE # r) =
     (case scanstring r of
        None \<Rightarrow> None
      | Some (v, r') \<Rightarrow>
          (case skip_ws r' of
             [] \<Rightarrow> None
           | d # r'' \<Rightarrow>
               if d = CHR '']'' then Some ([v], r'')
               else if d = CHR '','' then
                 (case parse_items (skip_ws r'') of
                    None \<Rightarrow> None
                  | Some (vs, rest) \<Rightarrow> Some (v # vs, rest))
               else None))"
  by (subst parse_items.simps) simp

lemma skip_ws_simps:
  "skip_ws (QUOTE # r) = QUOTE # r"
  "skip_ws (CHR '']'' # r) = CHR '']'' # r"
  "skip_ws (CHR '','' # r) = CHR '','' # r"
  "skip_ws (CHR ''['' # r) = CHR ''['' # r"
  "skip_ws (CHR '' '' # r) = skip_ws r"
  "skip_ws [] = []"
  by (simp_all add: skip_ws_def is_ws_def)

lemma join_items_encoded_quote:
  "\<exists>r. join_items (encode_basestring_ascii y # map encode_basestring_ascii ys) = QUOTE # r"
  by (cases ys) (simp_all add: encode_basestring_ascii_def)

lemma parse_encoded_string:
  "parse_items (encode_basestring_ascii x @ t) =
     (case skip_ws t of
        [] \<Rightarrow> None
      | d # r'' \<Rightarrow>
          if d = CHR '']'' then Some ([rejoin x], r'')
          else if d = CHR '','' then
            (case parse_items (skip_ws r'') of
               None \<Rightarrow> None
             | Some (vs, rest) \<Rightarrow> Some (rejoin x # vs, rest))
          else None)"
  by (simp add: encode_basestring_ascii_def parse_items_quote scan_escaped)

lemma parse_items_encoded:
  "xs \<noteq> [] \<Longrightarrow>
   parse_items (join_items (map encode_basestring_ascii xs) @ CHR '']'' # rest)
     = Some (map rejoin xs, rest)"
proof (induction xs rule: induct_list012)
  case 1
  then show ?case by simp
next
  case (2 x)
  show ?case by (simp add: parse_encoded_string skip_ws_simps)
next
  case (3 x y zs)
  obtain r where r: "join_items (encode_basestring_ascii y # map encode_basestring_ascii zs) = QUOTE # r"
    using join_items_encoded_quote by blast
  have ih: "parse_items (join_items (map encode_basestring_ascii (y # zs)) @ CHR '']'' # rest)
              = Some (map rejoin (y # zs), rest)"
    using 3 by simp
  have "parse_items (encode_basestring_ascii x
          @ (CHR '','' # CHR '' '' # join_items (map encode_basestring_ascii (y # zs))
             @ CHR '']'' # rest))
        = Some (rejoin x # map rejoin (y # zs), rest)"
    apply (subst parse_encoded_string)
    apply (simp only: skip_ws_simps list.case)
    using ih r apply (simp add: skip_ws_simps)
    done
  then show ?case by simp
qed

lemma json_loads_dumps: "json_loads (json_dumps xs) = Some (map rejoin xs)"
proof (cases xs)
  case Nil
  then show ?thesis by (simp add: json_loads_def json_dumps_def skip_ws_simps finish_def)
next
  case (Cons y ys)
  obtain r where r: "join_items (encode_basestring_ascii y # map encode_basestring_ascii ys) = QUOTE # r"
    using join_items_encoded_quote by blast
  have p: "parse_items (join_items (map encode_basestring_ascii (y # ys)) @ CHR '']'' # [])
            = Some (map rejoin (y # ys), [])"
    by (rule parse_items_encoded) simp
  show ?thesis
    using p by (simp add: Cons json_loads_def json_dumps_def r skip_ws_simps finish_def)
qed

lemma canon_valid: "c < 0x110000 \<Longrightarrow> canon c = c"
  by (simp add: canon_def)

lemma rejoin_pair_free: "valid_str s \<Longrightarrow> pair_free s \<Longrightarrow> rejoin s = s"
  by (induction s rule: rejoin.induct) (auto simp: valid_str_def canon_valid)

text \<open>
  C7, as stated, fails: a string may hold a high surrogate directly followed by a low
  surrogate as two code points (\<^verbatim>\<open>chr(0xd83d) + chr(0xde00)\<close>). The encoder writes the two
  escapes for \<open>d83d\<close> and \<open>de00\<close>, the text of the one code point \<open>0x1F600\<close>, and the decoder
  reads the one code point back, also through the store
  (\<^verbatim>\<open>identify\<close> with this requirement, then \<^verbatim>\<open>get_grant\<close>).
\<close>

theorem roundtrip_surrogate_pair_counterexample:
  "valid_str [0xD83D, 0xDE00]
   \<and> loads_or_raise (json_dumps [[0xD83D, 0xDE00]]) = Inr [[0x1F600]]
   \<and> loads_or_raise (json_dumps [[0xD83D, 0xDE00]]) \<noteq> Inr [[0xD83D, 0xDE00]]
   \<and> (case get_grant
              (snd (identify init_db ''id-1'' ''2025-01-01T00:00:00'' ''Grant'' ''Funder'' 50000
                      None FOUNDATION [] (Some [[0xD83D, 0xDE00]]) None []))
              ''id-1'' of
         Inr (Some g) \<Rightarrow> g_requirements g = [[0x1F600]]
       | _ \<Rightarrow> False)"
  by (simp add: valid_str_def loads_or_raise_def json_loads_dumps is_high_def is_low_def
      join_pair_def get_grant_def identify_def insert_grant_def init_db_def or_empty_def
      row_to_grant_def GrantType_of_def GrantStatus_of_def grant_to_row_def)

text \<open>
  C7, amended. For every list of strings (of code points below \<open>0x110000\<close>) in which no
  string holds a high surrogate directly followed by a low surrogate, so for every
  list of well-formed Unicode text, and for the empty list: decoding the encoded list
  gives the list back, with its order and content.
\<close>

theorem json_roundtrip:
  assumes "\<forall>s \<in> set xs. valid_str s \<and> pair_free s"
  shows "loads_or_raise (json_dumps xs) = Inr xs"
proof -
  have "map rejoin xs = xs"
    using assms by (simp add: map_idI rejoin_pair_free)
  then show ?thesis
    by (simp add: loads_or_raise_def json_loads_dumps)
qed

theorem json_roundtrip_witness:
  "valid_str (str ''budget'') \<and> pair_free (str ''budget'')
   \<and> valid_str [0xE9, 0x1F600, 0x22, 0x5C, 0x0A, 0xD83D]
   \<and> pair_free [0xE9, 0x1F600, 0x22, 0x5C, 0x0A, 0xD83D]
   \<and> loads_or_raise (json_dumps [str ''budget'', [0xE9, 0x1F600, 0x22, 0x5C, 0x0A, 0xD83D]])
       = Inr [str ''budget'', [0xE9, 0x1F600, 0x22, 0x5C, 0x0A, 0xD83D]]
   \<and> loads_or_raise (json_dumps []) = Inr []"
proof -
  have h: "\<forall>s \<in> set [str ''budget'', [0xE9, 0x1F600, 0x22, 0x5C, 0x0A, 0xD83D]].
             valid_str s \<and> pair_free s"
    by (simp add: valid_str_def str_def is_high_def is_low_def)
  have e: "\<forall>s \<in> set ([] :: pystr list). valid_str s \<and> pair_free s"
    by simp
  show ?thesis
    using h json_roundtrip [OF h] json_roundtrip [OF e] by simp
qed

section \<open>Reading a row\<close>

lemma GrantStatus_of_value: "GrantStatus_of (status_value st) = Some st"
  by (cases st) (simp_all add: GrantStatus_of_def)

lemma GrantType_of_value: "GrantType_of (type_value ty) = Some ty"
  by (cases ty) (simp_all add: GrantType_of_def)

lemma GrantStatus_of_Some: "GrantStatus_of v = Some st \<Longrightarrow> v = status_value st"
  by (auto simp: GrantStatus_of_def split: if_splits)

lemma status_value_in: "status_value st \<in> set status_values"
  by (cases st) (simp_all add: status_values_def)

lemma loads_dumps: "loads_or_raise (json_dumps xs) = Inr (map rejoin xs)"
  by (simp add: loads_or_raise_def json_loads_dumps)

lemma row_to_grant_Inr:
  "row_to_grant r = Inr g \<longleftrightarrow>
   (\<exists>ty st reqs dates cts.
      GrantType_of (r_type r) = Some ty \<and> GrantStatus_of (r_status r) = Some st \<and>
      loads_or_raise (r_requirements r) = Inr reqs \<and>
      loads_or_raise (r_reporting_dates r) = Inr dates \<and>
      loads_or_raise (r_contacts r) = Inr cts \<and>
      g = \<lparr>g_id = r_id r, g_title = r_title r, g_funder = r_funder r,
               g_amount = r_amount r, g_type = ty, g_purpose = r_purpose r,
               g_deadline = r_deadline r, g_status = st, g_requirements = reqs,
               g_reporting_dates = dates, g_contacts = cts,
               g_award_amount = r_award_amount r, g_notes = r_notes r,
               g_assigned_to = r_assigned_to r, g_created_at = r_created_at r,
               g_updated_at = r_updated_at r\<rparr>)"
  unfolding row_to_grant_def
  by (auto split: option.splits sum.splits)

section \<open>Updates of a stored grant\<close>

lemma find_update:
  assumes "\<And>r. r_id (f r) = r_id r"
  shows "find (\<lambda>r. r_id r = gid) (map (\<lambda>r. if r_id r = gid then f r else r) rows)
           = map_option f (find (\<lambda>r. r_id r = gid) rows)"
  by (induction rows) (simp_all add: assms)

lemma stored_update_grant:
  "(\<And>r. r_id (f r) = r_id r) \<Longrightarrow> stored (update_grant f gid d) gid = map_option f (stored d gid)"
  by (simp add: stored_def update_grant_def find_update)

lemma update_grant_other:
  "submissions (update_grant f gid d) = submissions d"
  "grant_notes (update_grant f gid d) = grant_notes d"
  by (simp_all add: update_grant_def)

lemma update_grant_ids:
  "(\<And>r. r_id (f r) = r_id r) \<Longrightarrow> map r_id (grants (update_grant f gid d)) = map r_id (grants d)"
  by (simp add: update_grant_def)

lemma update_grant_twice:
  "(\<And>r. r_id (h r) = r_id r) \<Longrightarrow>
   update_grant f gid (update_grant h gid d) = update_grant (\<lambda>r. f (h r)) gid d"
  by (simp add: update_grant_def)

lemma get_grant_stored:
  "get_grant d gid =
     (case stored d gid of
        None \<Rightarrow> Inr None
      | Some row \<Rightarrow> (case row_to_grant row of Inl e \<Rightarrow> Inl e | Inr g \<Rightarrow> Inr (Some g)))"
  by (simp add: get_grant_def stored_def)

lemma get_grant_Some:
  "get_grant d gid = Inr (Some g) \<longleftrightarrow> (\<exists>r. stored d gid = Some r \<and> row_to_grant r = Inr g)"
  by (auto simp: get_grant_stored split: option.splits sum.splits)

lemma stored_Some: "stored d gid = Some r \<Longrightarrow> r \<in> set (grants d) \<and> r_id r = gid"
  by (auto simp: stored_def find_Some_iff)

lemma row_to_grant_status:
  "row_to_grant r = Inr g \<Longrightarrow>
   row_to_grant (r\<lparr>r_status := status_value st, r_updated_at := now\<rparr>)
     = Inr (g\<lparr>g_status := st, g_updated_at := now\<rparr>)"
  by (auto simp: row_to_grant_Inr GrantStatus_of_value)

lemma row_to_grant_notes:
  "row_to_grant r = Inr g \<Longrightarrow> row_to_grant (r\<lparr>r_notes := notes\<rparr>) = Inr (g\<lparr>g_notes := notes\<rparr>)"
  by (auto simp: row_to_grant_Inr)

text \<open>The row and the grant after a transition.\<close>

lemma moved_row_id: "r_id (moved_row st notes now r) = r_id r"
  by (simp add: moved_row_def)

lemma row_to_grant_moved:
  "row_to_grant r = Inr g \<Longrightarrow> row_to_grant (moved_row st notes now r) = Inr (moved_grant st notes now g)"
  by (simp add: moved_row_def moved_grant_def row_to_grant_status row_to_grant_notes)

lemma transition_existing:
  assumes "stored d gid = Some r" "row_to_grant r = Inr g"
  shows "transition d gid st notes now
           = (Inr (Some (moved_grant st notes now g)), update_grant (moved_row st notes now) gid d)"
proof -
  have g: "get_grant d gid = Inr (Some g)"
    using assms by (simp add: get_grant_Some)
  have d2: "(let d1 = update_grant (\<lambda>r. r\<lparr>r_status := status_value st, r_updated_at := now\<rparr>) gid d
             in if notes \<noteq> [] then update_grant (\<lambda>r. r\<lparr>r_notes := notes\<rparr>) gid d1 else d1)
            = update_grant (moved_row st notes now) gid d"
    by (simp add: Let_def update_grant_twice moved_row_def [abs_def])
  have s: "stored (update_grant (moved_row st notes now) gid d) gid = Some (moved_row st notes now r)"
    using assms(1) by (simp add: stored_update_grant moved_row_id)
  have "get_grant (update_grant (moved_row st notes now) gid d) gid
          = Inr (Some (moved_grant st notes now g))"
    using s assms(2) by (simp add: get_grant_stored row_to_grant_moved)
  then show ?thesis
    using g d2 by (simp add: transition_def Let_def)
qed

lemma awarded_row_id: "r_id (awarded_row actual dates_json now r) = r_id r"
  by (simp add: awarded_row_def)

lemma row_to_grant_awarded:
  "row_to_grant r = Inr g \<Longrightarrow>
   row_to_grant (awarded_row actual (json_dumps ds) now r)
     = Inr (g\<lparr>g_status := AWARDED, g_reporting_dates := map rejoin ds,
               g_award_amount := Some actual, g_updated_at := now\<rparr>)"
  by (auto simp: row_to_grant_Inr awarded_row_def GrantStatus_of_def loads_dumps)

lemma award_existing:
  assumes "stored d gid = Some r" "row_to_grant r = Inr g"
  shows "award d gid award_amount reporting_dates now
           = (Inr (Some (g\<lparr>g_status := AWARDED,
                            g_reporting_dates := map rejoin (or_empty reporting_dates),
                            g_award_amount := Some (case award_amount of Some a \<Rightarrow> a
                                                    | None \<Rightarrow> r_amount r),
                            g_updated_at := now\<rparr>)),
              update_grant (awarded_row (case award_amount of Some a \<Rightarrow> a | None \<Rightarrow> r_amount r)
                              (json_dumps (or_empty reporting_dates)) now) gid d)"
proof -
  define actual where "actual = (case award_amount of Some a \<Rightarrow> a | None \<Rightarrow> r_amount r)"
  have g: "get_grant d gid = Inr (Some g)"
    using assms by (simp add: get_grant_Some)
  have a: "g_amount g = r_amount r"
    using assms(2) by (auto simp: row_to_grant_Inr)
  have s: "stored (update_grant (awarded_row actual (json_dumps (or_empty reporting_dates)) now) gid d) gid
             = Some (awarded_row actual (json_dumps (or_empty reporting_dates)) now r)"
    using assms(1) by (simp add: stored_update_grant awarded_row_id)
  have "get_grant (update_grant (awarded_row actual (json_dumps (or_empty reporting_dates)) now) gid d) gid
          = Inr (Some (g\<lparr>g_status := AWARDED,
                            g_reporting_dates := map rejoin (or_empty reporting_dates),
                            g_award_amount := Some actual, g_updated_at := now\<rparr>))"
    using s assms(2) by (simp add: get_grant_stored row_to_grant_awarded)
  then show ?thesis
    using g by (cases award_amount) (simp_all add: award_def Let_def actual_def awarded_row_def [abs_def] a)
qed

section \<open>The invariant is preserved\<close>

lemma row_ok_iff: "row_ok r \<longleftrightarrow> (\<exists>g. row_to_grant r = Inr g)"
  by (cases "row_to_grant r") (simp_all add: row_ok_def)

lemma row_ok_status: "row_ok r \<Longrightarrow> r_status r \<in> set status_values"
  by (auto simp: row_ok_iff row_to_grant_Inr dest!: GrantStatus_of_Some intro: status_value_in)

lemma row_ok_moved: "row_ok r \<Longrightarrow> row_ok (moved_row st notes now r)"
  by (auto simp: row_ok_iff dest: row_to_grant_moved)

lemma row_ok_awarded: "row_ok r \<Longrightarrow> row_ok (awarded_row actual (json_dumps ds) now r)"
  by (auto simp: row_ok_iff dest: row_to_grant_awarded)

lemma db_inv_update:
  assumes "db_inv d" "\<And>r. r_id (f r) = r_id r" "\<And>r. row_ok r \<Longrightarrow> row_ok (f r)"
  shows "db_inv (update_grant f gid d)"
proof -
  have ids: "map r_id (grants (update_grant f gid d)) = map r_id (grants d)"
    using assms(2) by (rule update_grant_ids)
  have ok: "list_all row_ok (grants (update_grant f gid d))"
    using assms(1,3) by (auto simp: db_inv_def update_grant_def list_all_iff)
  show ?thesis
    using assms(1) ids ok by (simp add: db_inv_def update_grant_other)
qed

lemma transition_cases:
  "(transition d gid st notes now = (Inr None, d) \<and> stored d gid = None)
   \<or> (\<exists>e. transition d gid st notes now = (Inl e, d))
   \<or> (\<exists>r g. stored d gid = Some r \<and> row_to_grant r = Inr g \<and>
          transition d gid st notes now
            = (Inr (Some (moved_grant st notes now g)), update_grant (moved_row st notes now) gid d))"
proof (cases "stored d gid")
  case None
  then show ?thesis by (simp add: transition_def get_grant_stored)
next
  case (Some r)
  show ?thesis
  proof (cases "row_to_grant r")
    case (Inl e)
    then show ?thesis using Some by (simp add: transition_def get_grant_stored)
  next
    case (Inr g)
    then show ?thesis using Some transition_existing by blast
  qed
qed

lemma transition_inv: "db_inv d \<Longrightarrow> db_inv (snd (transition d gid st notes now))"
  using transition_cases [of d gid st "notes" now]
  by (auto simp: db_inv_update moved_row_id row_ok_moved)

lemma transition_ids:
  "map r_id (grants (snd (transition d gid st notes now))) = map r_id (grants d)"
  using transition_cases [of d gid st "notes" now]
  by (auto simp: update_grant_ids moved_row_id)

lemma award_cases:
  "(award d gid amt dates now = (Inr None, d) \<and> stored d gid = None)
   \<or> (\<exists>e. award d gid amt dates now = (Inl e, d))
   \<or> (\<exists>r g g'. stored d gid = Some r \<and> row_to_grant r = Inr g \<and>
          award d gid amt dates now
            = (Inr (Some g'),
               update_grant (awarded_row (case amt of Some a \<Rightarrow> a | None \<Rightarrow> r_amount r)
                               (json_dumps (or_empty dates)) now) gid d))"
proof (cases "stored d gid")
  case None
  then show ?thesis by (simp add: award_def get_grant_stored)
next
  case (Some r)
  show ?thesis
  proof (cases "row_to_grant r")
    case (Inl e)
    then show ?thesis using Some by (simp add: award_def get_grant_stored)
  next
    case (Inr g)
    then show ?thesis using Some award_existing by blast
  qed
qed

lemma award_inv: "db_inv d \<Longrightarrow> db_inv (snd (award d gid amt dates now))"
  using award_cases [of d gid amt dates now]
  by (auto simp: db_inv_update awarded_row_id row_ok_awarded)

lemma award_ids:
  "map r_id (grants (snd (award d gid amt dates now))) = map r_id (grants d)"
  using award_cases [of d gid amt dates now]
  by (auto simp: update_grant_ids awarded_row_id)

lemma row_to_grant_of_grant:
  "row_to_grant (grant_to_row g)
     = Inr (g\<lparr>g_requirements := map rejoin (g_requirements g),
               g_reporting_dates := map rejoin (g_reporting_dates g),
               g_contacts := map rejoin (g_contacts g)\<rparr>)"
  by (simp add: row_to_grant_Inr grant_to_row_def GrantType_of_value GrantStatus_of_value
      loads_dumps)

lemma row_ok_of_grant: "row_ok (grant_to_row g)"
  by (simp add: row_ok_iff row_to_grant_of_grant)

lemma db_inv_insert_grant:
  assumes "db_inv d" "insert_grant d row = Some d'" "row_ok row"
  shows "db_inv d'"
proof -
  have d': "d' = d\<lparr>grants := grants d @ [row]\<rparr>" and fresh: "r_id row \<notin> set (map r_id (grants d))"
    using assms(2) by (auto simp: insert_grant_def split: if_splits)
  show ?thesis
    using assms(1,3) fresh by (auto simp: d' db_inv_def list_all_iff)
qed

lemma identify_inv:
  "db_inv d \<Longrightarrow>
   db_inv (snd (identify d uid now title funder amount deadline grant_type purpose requirements
                  contacts assigned_to))"
  by (auto simp: identify_def Let_def row_ok_of_grant split: option.splits
      intro: db_inv_insert_grant)

lemma identify_ids:
  "map r_id (grants (snd (identify d uid now title funder amount deadline grant_type purpose
                            requirements contacts assigned_to)))
     = map r_id (grants d) @ (if uid \<in> set (map r_id (grants d)) then [] else [uid])"
  by (simp add: identify_def Let_def insert_grant_def grant_to_row_def)

lemma add_note_grants:
  "grants (snd (add_note d gid content author uid created)) = grants d"
  "submissions (snd (add_note d gid content author uid created)) = submissions d"
  by (simp_all add: add_note_def Let_def insert_note_def)

lemma add_note_inv: "db_inv d \<Longrightarrow> db_inv (snd (add_note d gid content author uid created))"
  by (simp add: db_inv_def add_note_grants)

text \<open>The row that \<^verbatim>\<open>submit\<close> inserts.\<close>

lemma submit_existing:
  assumes "stored d gid = Some r" "row_to_grant r = Inr g"
  shows "submit d gid notes submitted_by documents uid now created now2 =
     (if uid \<in> set (map s_id (submissions d)) then (Inl IntegrityError, d)
      else (Inr (Some (moved_grant SUBMITTED [] now2 g)),
            update_grant (moved_row SUBMITTED [] now2) gid
              (d\<lparr>submissions := submissions d @
                    [\<lparr>s_id = uid, s_grant_id = gid, s_submitted_at = now, s_notes = notes,
                      s_submitted_by = submitted_by,
                      s_documents = json_dumps (or_empty documents),
                      s_created_at = created\<rparr>]\<rparr>)))"
proof -
  have g: "get_grant d gid = Inr (Some g)"
    using assms by (simp add: get_grant_Some)
  show ?thesis
  proof (cases "uid \<in> set (map s_id (submissions d))")
    case True
    then show ?thesis using g by (simp add: submit_def Let_def insert_submission_def)
  next
    case False
    define d1 where "d1 = d\<lparr>submissions := submissions d @
                    [\<lparr>s_id = uid, s_grant_id = gid, s_submitted_at = now, s_notes = notes,
                      s_submitted_by = submitted_by,
                      s_documents = json_dumps (or_empty documents),
                      s_created_at = created\<rparr>]\<rparr>"
    have "stored d1 gid = Some r"
      using assms(1) by (simp add: stored_def d1_def)
    then have "transition d1 gid SUBMITTED [] now2
                 = (Inr (Some (moved_grant SUBMITTED [] now2 g)),
                    update_grant (moved_row SUBMITTED [] now2) gid d1)"
      using assms(2) by (rule transition_existing)
    then show ?thesis
      using g False by (simp add: submit_def Let_def insert_submission_def d1_def)
  qed
qed

lemma submit_cases:
  "(submit d gid notes submitted_by documents uid now created now2 = (Inr None, d) \<and> stored d gid = None)
   \<or> (\<exists>e. submit d gid notes submitted_by documents uid now created now2 = (Inl e, d))
   \<or> (\<exists>r g row. stored d gid = Some r \<and> row_to_grant r = Inr g \<and> s_grant_id row = gid \<and>
          submit d gid notes submitted_by documents uid now created now2
            = (Inr (Some (moved_grant SUBMITTED [] now2 g)),
               update_grant (moved_row SUBMITTED [] now2) gid
                 (d\<lparr>submissions := submissions d @ [row]\<rparr>)))"
proof (cases "stored d gid")
  case None
  then show ?thesis by (simp add: submit_def get_grant_stored)
next
  case (Some r)
  show ?thesis
  proof (cases "row_to_grant r")
    case (Inl e)
    then show ?thesis using Some by (simp add: submit_def get_grant_stored)
  next
    case (Inr g)
    show ?thesis
    proof (cases "uid \<in> set (map s_id (submissions d))")
      case True
      then show ?thesis
        using submit_existing [OF Some Inr, of "notes" submitted_by documents uid now created now2]
        by simp
    next
      case False
      define row where "row = \<lparr>s_id = uid, s_grant_id = gid, s_submitted_at = now,
                      s_notes = notes, s_submitted_by = submitted_by,
                      s_documents = json_dumps (or_empty documents),
                      s_created_at = created\<rparr>"
      have "submit d gid notes submitted_by documents uid now created now2
              = (Inr (Some (moved_grant SUBMITTED [] now2 g)),
                 update_grant (moved_row SUBMITTED [] now2) gid
                   (d\<lparr>submissions := submissions d @ [row]\<rparr>))"
        using False
          submit_existing [OF Some Inr, of "notes" submitted_by documents uid now created now2]
        by (simp add: row_def)
      moreover have "s_grant_id row = gid" by (simp add: row_def)
      ultimately show ?thesis using Some Inr by blast
    qed
  qed
qed

lemma db_inv_add_submission:
  "db_inv d \<Longrightarrow> s_grant_id row \<in> set (map r_id (grants d)) \<Longrightarrow>
   db_inv (d\<lparr>submissions := submissions d @ [row]\<rparr>)"
  by (simp add: db_inv_def)

lemma submit_inv:
  "db_inv d \<Longrightarrow> db_inv (snd (submit d gid notes submitted_by documents uid now created now2))"
  using submit_cases [of d gid "notes" submitted_by documents uid now created now2]
  by (auto simp: moved_row_id row_ok_moved dest!: stored_Some
      intro!: db_inv_update db_inv_add_submission)

lemma submit_ids:
  "map r_id (grants (snd (submit d gid notes submitted_by documents uid now created now2)))
     = map r_id (grants d)"
  using submit_cases [of d gid "notes" submitted_by documents uid now created now2]
  by (auto simp: update_grant_ids moved_row_id)

lemma step_inv: "step d d' \<Longrightarrow> db_inv d \<Longrightarrow> db_inv d'"
  by (induction rule: step.induct)
    (simp_all add: identify_inv apply_grant_def reject_def start_reporting_def close_def
      transition_inv submit_inv award_inv add_note_inv)

lemma step_ids:
  "step d d' \<Longrightarrow> take (length (grants d)) (map r_id (grants d')) = map r_id (grants d)"
proof (induction rule: step.induct)
  case (step_identify d uid now title funder amount deadline grant_type purpose requirements
      contacts assigned_to)
  show ?case by (simp only: identify_ids) simp
qed (simp_all add: apply_grant_def reject_def start_reporting_def close_def transition_ids
      submit_ids award_ids add_note_grants)

lemma init_inv: "db_inv init_db"
  by (simp add: db_inv_def init_db_def)

lemma reachable_inv: "reachable d \<Longrightarrow> db_inv d"
  by (induction rule: reachable.induct) (simp_all add: init_inv step_inv)

lemma steps_ids:
  "step\<^sup>*\<^sup>* d d' \<Longrightarrow>
   length (grants d) \<le> length (grants d') \<and>
   take (length (grants d)) (map r_id (grants d')) = map r_id (grants d)"
proof (induction rule: rtranclp_induct)
  case base
  show ?case by simp
next
  case (step y z)
  have l: "length (grants y) \<le> length (grants z)"
    using step_ids [OF step(2)]
    by (metis length_map length_take min.cobounded1 )
  have "take (length (grants d)) (map r_id (grants z))
          = take (length (grants d)) (take (length (grants y)) (map r_id (grants z)))"
    using step(3) by (simp add: min_def)
  also have "\<dots> = take (length (grants d)) (map r_id (grants y))"
    by (simp only: step_ids [OF step(2)])
  finally show ?case using step(3) l by simp
qed

lemma steps_reachable: "step\<^sup>*\<^sup>* d d' \<Longrightarrow> reachable d \<Longrightarrow> reachable d'"
  by (induction rule: rtranclp_induct) (auto intro: reachable_step)

section \<open>Grants of a reachable state\<close>

text \<open>
  In a reachable state \<^verbatim>\<open>get_grant\<close> reads every grant of the table, so "a grant that
  \<^verbatim>\<open>get_grant\<close> finds" below is any existing grant; and the requested amount of a grant
  is the one it was created with.
\<close>

lemma reachable_get_grant:
  assumes "reachable d" "grant_id \<in> set (map r_id (grants d))"
  shows "\<exists>grant. get_grant d grant_id = Inr (Some grant)"
proof -
  have inv: "db_inv d" using assms(1) by (rule reachable_inv)
  obtain r where r: "stored d grant_id = Some r"
    using assms(2) by (cases "stored d grant_id") (auto simp: stored_def find_None_iff)
  then have "r \<in> set (grants d)" by (simp add: stored_Some)
  then have "row_ok r" using inv by (simp add: db_inv_def list_all_iff)
  then obtain g where "row_to_grant r = Inr g" by (auto simp: row_ok_iff)
  then show ?thesis using r by (auto simp: get_grant_Some)
qed

lemma update_grant_amounts:
  "(\<And>r. r_amount (f r) = r_amount r) \<Longrightarrow>
   map r_amount (grants (update_grant f gid d)) = map r_amount (grants d)"
  by (simp add: update_grant_def)

lemma moved_row_amount: "r_amount (moved_row st notes now r) = r_amount r"
  by (simp add: moved_row_def)

lemma awarded_row_amount: "r_amount (awarded_row actual dj now r) = r_amount r"
  by (simp add: awarded_row_def)

lemma transition_amounts:
  "map r_amount (grants (snd (transition d gid st notes now))) = map r_amount (grants d)"
  using transition_cases [of d gid st "notes" now]
  by (auto simp: update_grant_amounts moved_row_amount)

lemma award_amounts:
  "map r_amount (grants (snd (award d gid amt dates now))) = map r_amount (grants d)"
  using award_cases [of d gid amt dates now]
  by (auto simp: update_grant_amounts awarded_row_amount)

lemma submit_amounts:
  "map r_amount (grants (snd (submit d gid notes submitted_by documents uid now created now2)))
     = map r_amount (grants d)"
  using submit_cases [of d gid "notes" submitted_by documents uid now created now2]
  by (auto simp: update_grant_amounts moved_row_amount)

lemma identify_amounts:
  "take (length (grants d))
     (map r_amount (grants (snd (identify d uid now title funder amount deadline grant_type
                                   purpose requirements contacts assigned_to))))
     = map r_amount (grants d)"
  by (simp add: identify_def Let_def insert_grant_def)

text \<open>No operation changes the requested amount of a grant that exists.\<close>

lemma step_amounts:
  "step d d' \<Longrightarrow> take (length (grants d)) (map r_amount (grants d')) = map r_amount (grants d)"
proof (induction rule: step.induct)
  case (step_identify d uid now title funder amount deadline grant_type purpose requirements
      contacts assigned_to)
  show ?case by (rule identify_amounts)
qed (simp_all add: apply_grant_def reject_def start_reporting_def close_def transition_amounts
      submit_amounts award_amounts add_note_grants)

section \<open>Lookups and transitions on an unknown identifier\<close>

lemma get_grant_unknown:
  "grant_id \<notin> set (map r_id (grants d)) \<Longrightarrow> get_grant d grant_id = Inr None"
proof -
  assume "grant_id \<notin> set (map r_id (grants d))"
  then have "find (\<lambda>r. r_id r = grant_id) (grants d) = None"
    by (auto simp: find_None_iff)
  then show ?thesis by (simp add: get_grant_def)
qed

lemma transition_unknown:
  "grant_id \<notin> set (map r_id (grants d)) \<Longrightarrow> transition d grant_id st notes now = (Inr None, d)"
  by (simp add: transition_def get_grant_unknown)

lemma one_grant_db_eq:
  "one_grant_db =
     \<lparr>grants = [\<lparr>r_id = ''id-1'', r_title = ''Grant'', r_funder = ''Funder'', r_amount = 50000,
                  r_type = ''foundation'', r_purpose = [], r_deadline = None,
                  r_status = ''identified'', r_requirements = ''[]'',
                  r_reporting_dates = ''[]'', r_contacts = ''[]'', r_award_amount = None,
                  r_notes = [], r_assigned_to = [], r_created_at = ''2025-01-01T00:00:00'',
                  r_updated_at = ''2025-01-01T00:00:00''\<rparr>],
      submissions = [], grant_notes = []\<rparr>"
  by (simp add: one_grant_db_def identify_def insert_grant_def init_db_def or_empty_def
      json_dumps_def grant_to_row_def)

text \<open>
  C5. For an identifier that no row of the table of grants carries, each of the six
  transition operations (apply, submit, award, reject, start_reporting, close) returns
  \<^verbatim>\<open>None\<close> without raising, and the database after the call is the database before it:
  no grant, submission or note row is created or changed.
\<close>

theorem unknown_id_transitions_return_none:
  assumes "grant_id \<notin> set (map r_id (grants d))"
  shows "apply_grant d grant_id notes assigned_to now = (Inr None, d)
       \<and> submit d grant_id notes submitted_by documents uid now created now2 = (Inr None, d)
       \<and> award d grant_id award_amount reporting_dates now = (Inr None, d)
       \<and> reject d grant_id notes now = (Inr None, d)
       \<and> start_reporting d grant_id now = (Inr None, d)
       \<and> close d grant_id now = (Inr None, d)"
  using assms
  by (simp add: apply_grant_def submit_def award_def reject_def start_reporting_def
      close_def transition_unknown get_grant_unknown)

theorem unknown_id_transitions_witness:
  "''id-9'' \<notin> set (map r_id (grants one_grant_db))
   \<and> apply_grant one_grant_db ''id-9'' ''n'' ''Bob'' ''t'' = (Inr None, one_grant_db)
   \<and> submit one_grant_db ''id-9'' ''n'' ''Alice'' None ''sub-1'' ''t'' ''t'' ''t''
       = (Inr None, one_grant_db)
   \<and> award one_grant_db ''id-9'' (Some 45000) None ''t'' = (Inr None, one_grant_db)
   \<and> reject one_grant_db ''id-9'' ''n'' ''t'' = (Inr None, one_grant_db)
   \<and> start_reporting one_grant_db ''id-9'' ''t'' = (Inr None, one_grant_db)
   \<and> close one_grant_db ''id-9'' ''t'' = (Inr None, one_grant_db)"
proof -
  have h: "''id-9'' \<notin> set (map r_id (grants one_grant_db))"
    by (simp add: one_grant_db_eq)
  show ?thesis
    using h unknown_id_transitions_return_none [OF h] by simp
qed

section \<open>Notes\<close>

text \<open>
  C6. The claim is that \<^verbatim>\<open>add_note\<close> on an unknown identifier returns nothing and
  creates no note. The code does not look the grant up: on the empty database, where
  \<^verbatim>\<open>get_grant\<close> finds no grant \<open>id-9\<close>, \<^verbatim>\<open>add_note\<close> returns the note and the table of notes
  holds a row owned by \<open>id-9\<close>.
\<close>

theorem add_note_unknown_id_creates_note:
  "get_grant init_db ''id-9'' = Inr None
   \<and> add_note init_db ''id-9'' ''Important note'' ''Alice'' ''note-1'' ''2025-01-01T00:00:00''
       = (Inr \<lparr>n_id = ''note-1'', n_grant_id = ''id-9'', n_content = ''Important note'',
                n_author = ''Alice'', n_created_at = ''2025-01-01T00:00:00''\<rparr>,
          \<lparr>grants = [], submissions = [],
           grant_notes = [\<lparr>n_id = ''note-1'', n_grant_id = ''id-9'',
                            n_content = ''Important note'', n_author = ''Alice'',
                            n_created_at = ''2025-01-01T00:00:00''\<rparr>]\<rparr>)"
  by (simp add: get_grant_def add_note_def insert_note_def init_db_def Let_def)

section \<open>Awards\<close>

lemma stored_awarded:
  assumes "stored d gid = Some r"
  shows "stored (update_grant (awarded_row actual dj now) gid d) gid = Some (awarded_row actual dj now r)"
  using assms by (simp add: stored_update_grant awarded_row_id)

lemma json_dumps_Nil: "json_dumps [] = ''[]''"
  by (simp add: json_dumps_def)

lemma loads_empty: "loads_or_raise ''[]'' = Inr []"
  using loads_dumps [of "[]"] by (simp add: json_dumps_Nil)

lemma get_one_grant: "get_grant one_grant_db ''id-1'' = Inr (Some one_grant)"
  by code_simp

lemma get_awarded_grant: "get_grant awarded_db ''id-1'' = Inr (Some awarded_grant)"
  by code_simp



text \<open>
  C3. For a grant that \<^verbatim>\<open>get_grant\<close> finds, \<^verbatim>\<open>award\<close> leaves in the column
  \<^verbatim>\<open>reporting_dates\<close> the encoding of the list given, and of the empty list when the
  argument is omitted, whatever the column held before; the returned grant carries the
  decoded column: the empty list when the argument is omitted, the list given when it
  is a list of well-formed strings.
\<close>

theorem award_sets_reporting_dates:
  assumes "get_grant d grant_id = Inr (Some grant)"
  shows "\<exists>g' r'.
           fst (award d grant_id award_amount reporting_dates now) = Inr (Some g')
         \<and> stored (snd (award d grant_id award_amount reporting_dates now)) grant_id = Some r'
         \<and> r_reporting_dates r' = json_dumps (case reporting_dates of Some ds \<Rightarrow> ds | None \<Rightarrow> [])
         \<and> loads_or_raise (r_reporting_dates r') = Inr (g_reporting_dates g')
         \<and> (reporting_dates = None \<longrightarrow> r_reporting_dates r' = ''[]'' \<and> g_reporting_dates g' = [])
         \<and> (\<forall>ds. reporting_dates = Some ds \<and> list_all (\<lambda>s. valid_str s \<and> pair_free s) ds
                \<longrightarrow> g_reporting_dates g' = ds)"
proof -
  obtain r where r: "stored d grant_id = Some r" "row_to_grant r = Inr grant"
    using assms by (auto simp: get_grant_Some)
  have id: "\<And>ds. list_all (\<lambda>s. valid_str s \<and> pair_free s) ds \<Longrightarrow> map rejoin ds = ds"
    by (simp add: list_all_iff map_idI rejoin_pair_free)
  show ?thesis
    unfolding award_existing [OF r]
    by (cases reporting_dates)
      (simp_all add: stored_awarded [OF r(1)] awarded_row_def or_empty_def loads_dumps
        json_dumps_Nil loads_empty id)
qed

theorem award_sets_reporting_dates_witness:
  "get_grant awarded_db ''id-1'' = Inr (Some awarded_grant)
   \<and> g_reporting_dates awarded_grant = [str ''2025-12-31'']
   \<and> (\<exists>g' r'.
          fst (award awarded_db ''id-1'' None None ''2025-01-03T00:00:00'') = Inr (Some g')
        \<and> stored (snd (award awarded_db ''id-1'' None None ''2025-01-03T00:00:00'')) ''id-1''
             = Some r'
        \<and> r_reporting_dates r' = ''[]'' \<and> g_reporting_dates g' = [])
   \<and> (\<exists>g' r'.
          fst (award one_grant_db ''id-1'' None (Some [str ''2026-06-30'', str ''2026-12-31''])
                 ''2025-01-03T00:00:00'') = Inr (Some g')
        \<and> stored (snd (award one_grant_db ''id-1'' None
                          (Some [str ''2026-06-30'', str ''2026-12-31''])
                          ''2025-01-03T00:00:00'')) ''id-1'' = Some r'
        \<and> r_reporting_dates r' = json_dumps [str ''2026-06-30'', str ''2026-12-31'']
        \<and> g_reporting_dates g' = [str ''2026-06-30'', str ''2026-12-31''])"
proof -
  have v: "list_all (\<lambda>s. valid_str s \<and> pair_free s) [str ''2026-06-30'', str ''2026-12-31'']"
    by (simp add: valid_str_def str_def is_high_def is_low_def)
  show ?thesis
    using get_awarded_grant v
      award_sets_reporting_dates [OF get_awarded_grant, of None None "''2025-01-03T00:00:00''"]
      award_sets_reporting_dates [OF get_one_grant, of None
        "Some [str ''2026-06-30'', str ''2026-12-31'']" "''2025-01-03T00:00:00''"]
    by (simp add: awarded_grant_def) blast
qed

section \<open>Identifying a grant\<close>

lemma find_append_None: "find P xs = None \<Longrightarrow> find P (xs @ ys) = find P ys"
  by (induction xs) (simp_all split: if_splits)

lemma find_append_Some: "find P xs = Some x \<Longrightarrow> find P (xs @ ys) = Some x"
  by (induction xs) (simp_all split: if_splits)

lemma stored_append_new:
  "gid \<notin> set (map r_id (grants d)) \<Longrightarrow> r_id row = gid \<Longrightarrow>
   stored (d\<lparr>grants := grants d @ [row]\<rparr>) gid = Some row"
proof -
  assume a: "gid \<notin> set (map r_id (grants d))" and b: "r_id row = gid"
  have "find (\<lambda>r. r_id r = gid) (grants d) = None"
    using a by (auto simp: find_None_iff)
  then show ?thesis using b by (simp add: stored_def find_append_None)
qed

lemma identify_fresh:
  assumes "uid \<notin> set (map r_id (grants d))"
  shows "\<exists>g. identify d uid now title funder amount deadline grant_type purpose requirements
               contacts assigned_to = (Inr g, d\<lparr>grants := grants d @ [grant_to_row g]\<rparr>)
             \<and> g_id g = uid \<and> g_status g = IDENTIFIED \<and> g_created_at g = now
             \<and> g_updated_at g = now \<and> g_award_amount g = None \<and> g_amount g = amount"
  using assms by (simp add: identify_def Let_def insert_grant_def grant_to_row_def)

lemma identify_taken:
  assumes "uid \<in> set (map r_id (grants d))"
  shows "identify d uid now title funder amount deadline grant_type purpose requirements
               contacts assigned_to = (Inl IntegrityError, d)"
  using assms by (simp add: identify_def Let_def insert_grant_def grant_to_row_def)

text \<open>
  C8. The identifier of a new grant is the value of \<^verbatim>\<open>uuid.uuid4()\<close>, an input of the
  model. Whenever that value is not the identifier of a grant of the table,
  \<^verbatim>\<open>identify\<close> returns a grant; when it is, the insert violates the primary key and
  \<^verbatim>\<open>identify\<close> raises with the database unchanged. Every grant that \<^verbatim>\<open>identify\<close> returns
  has status \<^verbatim>\<open>identified\<close>, an identifier that no grant created before carries (no grant
  is ever deleted, so these are the identifiers of the table), and creation and update
  timestamps both equal to the current time; its row is stored with the same status
  and timestamps.
\<close>

theorem identify_creates_identified_grant:
  "(uid \<notin> set (map r_id (grants d)) \<longrightarrow>
      (\<exists>g d'. identify d uid now title funder amount deadline grant_type purpose requirements
                 contacts assigned_to = (Inr g, d')))
   \<and> (uid \<in> set (map r_id (grants d)) \<longrightarrow>
        identify d uid now title funder amount deadline grant_type purpose requirements
          contacts assigned_to = (Inl IntegrityError, d))
   \<and> (\<forall>g d'. identify d uid now title funder amount deadline grant_type purpose requirements
                 contacts assigned_to = (Inr g, d') \<longrightarrow>
          g_status g = IDENTIFIED \<and> g_id g = uid \<and> g_id g \<notin> set (map r_id (grants d))
        \<and> g_created_at g = now \<and> g_updated_at g = now
        \<and> map r_id (grants d') = map r_id (grants d) @ [g_id g]
        \<and> (\<exists>r. stored d' (g_id g) = Some r \<and> r_status r = ''identified''
                \<and> r_created_at r = now \<and> r_updated_at r = now))"
proof (cases "uid \<in> set (map r_id (grants d))")
  case True
  then show ?thesis by (simp add: identify_taken)
next
  case False
  obtain g where g: "identify d uid now title funder amount deadline grant_type purpose
                       requirements contacts assigned_to
                     = (Inr g, d\<lparr>grants := grants d @ [grant_to_row g]\<rparr>)"
      "g_id g = uid" "g_status g = IDENTIFIED" "g_created_at g = now" "g_updated_at g = now"
    using identify_fresh [OF False] by blast
  have s: "stored (d\<lparr>grants := grants d @ [grant_to_row g]\<rparr>) uid = Some (grant_to_row g)"
    using False g(2) by (intro stored_append_new) (simp_all add: grant_to_row_def)
  have r: "r_id (grant_to_row g) = uid" "r_status (grant_to_row g) = ''identified''"
      "r_created_at (grant_to_row g) = now" "r_updated_at (grant_to_row g) = now"
    using g by (simp_all add: grant_to_row_def)
  show ?thesis
    using False g s r by auto
qed

theorem identify_creates_identified_grant_witness:
  "''id-2'' \<notin> set (map r_id (grants one_grant_db))
   \<and> ''id-1'' \<in> set (map r_id (grants one_grant_db))
   \<and> (\<exists>g d'. identify one_grant_db ''id-2'' ''2025-01-05T00:00:00'' ''Test Grant'' ''NSF'' 100000
                 None FEDERAL [] None None [] = (Inr g, d')
             \<and> g_status g = IDENTIFIED \<and> g_id g = ''id-2''
             \<and> g_created_at g = ''2025-01-05T00:00:00''
             \<and> g_updated_at g = ''2025-01-05T00:00:00''
             \<and> map r_id (grants d') = [''id-1'', ''id-2''])
   \<and> identify one_grant_db ''id-1'' ''2025-01-05T00:00:00'' ''Test Grant'' ''NSF'' 100000
        None FEDERAL [] None None [] = (Inl IntegrityError, one_grant_db)"
proof -
  have a: "''id-2'' \<notin> set (map r_id (grants one_grant_db))"
    and b: "''id-1'' \<in> set (map r_id (grants one_grant_db))"
    and c: "map r_id (grants one_grant_db) = [''id-1'']"
    by (simp_all add: one_grant_db_eq)
  note t2 = identify_creates_identified_grant [of "''id-2''" one_grant_db
      "''2025-01-05T00:00:00''" "''Test Grant''" "''NSF''" 100000 None FEDERAL "[]" None None "[]"]
  note t1 = identify_creates_identified_grant [of "''id-1''" one_grant_db
      "''2025-01-05T00:00:00''" "''Test Grant''" "''NSF''" 100000 None FEDERAL "[]" None None "[]"]
  from t2 a obtain g d' where
    i: "identify one_grant_db ''id-2'' ''2025-01-05T00:00:00'' ''Test Grant'' ''NSF'' 100000
          None FEDERAL [] None None [] = (Inr g, d')"
    by blast
  from t2 i have p: "g_status g = IDENTIFIED" "g_id g = ''id-2''"
      "g_created_at g = ''2025-01-05T00:00:00''" "g_updated_at g = ''2025-01-05T00:00:00''"
      "map r_id (grants d') = map r_id (grants one_grant_db) @ [g_id g]"
    by blast+
  from t1 b have e: "identify one_grant_db ''id-1'' ''2025-01-05T00:00:00'' ''Test Grant''
      ''NSF'' 100000 None FEDERAL [] None None [] = (Inl IntegrityError, one_grant_db)"
    by blast
  have m: "map r_id (grants d') = [''id-1'', ''id-2'']"
    using p(5) by (simp only: c p(2)) simp
  have ex: "\<exists>g d'. identify one_grant_db ''id-2'' ''2025-01-05T00:00:00'' ''Test Grant'' ''NSF'' 100000
                 None FEDERAL [] None None [] = (Inr g, d')
             \<and> g_status g = IDENTIFIED \<and> g_id g = ''id-2''
             \<and> g_created_at g = ''2025-01-05T00:00:00''
             \<and> g_updated_at g = ''2025-01-05T00:00:00''
             \<and> map r_id (grants d') = [''id-1'', ''id-2'']"
    by (rule exI [of _ g], rule exI [of _ d']) (intro conjI i p(1-4) m)
  show ?thesis by (intro conjI a b ex e)
qed

section \<open>Identifiers and statuses in reachable states\<close>

lemma reachable_one_grant_db: "reachable one_grant_db"
  unfolding one_grant_db_def by (rule reachable_step [OF reachable_init step_identify])

lemma step_one_grant_awarded: "step one_grant_db awarded_db"
  unfolding awarded_db_def by (rule step_award)

lemma awarded_db_eq:
  "awarded_db =
     \<lparr>grants = [\<lparr>r_id = ''id-1'', r_title = ''Grant'', r_funder = ''Funder'', r_amount = 50000,
                  r_type = ''foundation'', r_purpose = [], r_deadline = None,
                  r_status = ''awarded'', r_requirements = ''[]'',
                  r_reporting_dates = json_dumps [str ''2025-12-31''], r_contacts = ''[]'',
                  r_award_amount = Some 45000,
                  r_notes = [], r_assigned_to = [], r_created_at = ''2025-01-01T00:00:00'',
                  r_updated_at = ''2025-01-02T00:00:00''\<rparr>],
      submissions = [], grant_notes = []\<rparr>"
proof -
  have s: "stored one_grant_db ''id-1'' = Some (hd (grants one_grant_db))"
    by (simp add: stored_def one_grant_db_eq)
  have r: "row_to_grant (hd (grants one_grant_db)) = Inr one_grant"
    using get_one_grant by (simp add: get_grant_stored s split: sum.splits)
  show ?thesis
    unfolding awarded_db_def award_existing [OF s r]
    by (simp add: one_grant_db_eq update_grant_def awarded_row_def or_empty_def)
qed

text \<open>
  C9. In every state that calls of the public operations reach from the empty
  database, the status column of every grant holds one of the seven values and the
  identifiers are pairwise distinct; and whatever operations follow, the rows that
  exist keep their identifiers (the table only grows at its end) and the later state
  satisfies the same two invariants.
\<close>

theorem identifier_and_status_invariant:
  assumes "reachable d" "step\<^sup>*\<^sup>* d d'"
  shows "list_all (\<lambda>r. r_status r \<in> set status_values) (grants d)
       \<and> distinct (map r_id (grants d))
       \<and> take (length (grants d)) (map r_id (grants d')) = map r_id (grants d)
       \<and> list_all (\<lambda>r. r_status r \<in> set status_values) (grants d')
       \<and> distinct (map r_id (grants d'))"
proof -
  have st: "\<And>x. db_inv x \<Longrightarrow> list_all (\<lambda>r. r_status r \<in> set status_values) (grants x)"
    by (auto simp: db_inv_def list_all_iff intro: row_ok_status)
  have "db_inv d" using assms(1) by (rule reachable_inv)
  moreover have "db_inv d'"
    using steps_reachable [OF assms(2) assms(1)] by (rule reachable_inv)
  ultimately show ?thesis
    using steps_ids [OF assms(2)] st by (simp add: db_inv_def)
qed

theorem identifier_and_status_invariant_witness:
  "reachable one_grant_db \<and> step\<^sup>*\<^sup>* one_grant_db awarded_db
   \<and> map r_status (grants one_grant_db) = [''identified'']
   \<and> map r_status (grants awarded_db) = [''awarded'']
   \<and> list_all (\<lambda>r. r_status r \<in> set status_values) (grants awarded_db)
   \<and> map r_id (grants one_grant_db) = [''id-1'']
   \<and> take (length (grants one_grant_db)) (map r_id (grants awarded_db))
       = map r_id (grants one_grant_db)"
proof -
  have s: "step\<^sup>*\<^sup>* one_grant_db awarded_db"
    using step_one_grant_awarded by (rule r_into_rtranclp)
  have a: "map r_status (grants one_grant_db) = [''identified'']"
      "map r_id (grants one_grant_db) = [''id-1'']"
    by (simp_all add: one_grant_db_eq)
  have b: "map r_status (grants awarded_db) = [''awarded'']"
    by (simp add: awarded_db_eq)
  note t = identifier_and_status_invariant [OF reachable_one_grant_db s]
  show ?thesis
    by (intro conjI reachable_one_grant_db s a b t [THEN conjunct2, THEN conjunct2, THEN conjunct1]
        t [THEN conjunct2, THEN conjunct2, THEN conjunct2, THEN conjunct1])
qed

section \<open>Submissions\<close>

lemma stored_moved:
  assumes "stored d gid = Some r"
  shows "stored (update_grant (moved_row st notes now) gid d) gid = Some (moved_row st notes now r)"
  using assms by (simp add: stored_update_grant moved_row_id)

lemma moved_row_status: "r_status (moved_row st notes now r) = status_value st"
  by (simp add: moved_row_def)

lemma moved_grant_status: "g_status (moved_grant st notes now g) = st"
  by (simp add: moved_grant_def)

lemma stored_submissions_update:
  "stored (d\<lparr>submissions := xs\<rparr>) gid = stored d gid"
  by (simp add: stored_def)

lemma submit_on_existing:
  assumes "get_grant d grant_id = Inr (Some grant)"
  shows "(uid \<notin> set (map s_id (submissions d)) \<longrightarrow>
           (\<exists>g' r'.
               fst (submit d grant_id notes submitted_by documents uid now created now2)
                 = Inr (Some g')
             \<and> g_status g' = SUBMITTED
             \<and> submissions (snd (submit d grant_id notes submitted_by documents uid now created now2))
                 = submissions d @
                   [\<lparr>s_id = uid, s_grant_id = grant_id, s_submitted_at = now, s_notes = notes,
                     s_submitted_by = submitted_by,
                     s_documents = json_dumps (or_empty documents), s_created_at = created\<rparr>]
             \<and> stored (snd (submit d grant_id notes submitted_by documents uid now created now2))
                   grant_id = Some r'
             \<and> r_status r' = ''submitted''
             \<and> grant_notes (snd (submit d grant_id notes submitted_by documents uid now created now2))
                 = grant_notes d
             \<and> map r_id (grants (snd (submit d grant_id notes submitted_by documents uid now
                                         created now2)))
                 = map r_id (grants d)))
       \<and> (uid \<in> set (map s_id (submissions d)) \<longrightarrow>
            submit d grant_id notes submitted_by documents uid now created now2
              = (Inl IntegrityError, d))"
proof -
  obtain r where r: "stored d grant_id = Some r" "row_to_grant r = Inr grant"
    using assms by (auto simp: get_grant_Some)
  have s: "stored (d\<lparr>submissions := xs\<rparr>) grant_id = Some r" for xs
    using r(1) by (simp add: stored_submissions_update)
  show ?thesis
    unfolding submit_existing [OF r]
    by (simp add: moved_grant_status update_grant_other update_grant_ids moved_row_id
        stored_moved [OF s] moved_row_status)
qed

lemma collect_single: "collect [Inr x] = Inr [x]"
  by simp

lemma get_submissions_single:
  assumes "filter (\<lambda>r. s_grant_id r = gid) (submissions d) = [row]"
    and "s_documents row = json_dumps docs"
  shows "\<exists>sub. get_submissions d gid = Inr [sub]"
  using assms by (simp add: get_submissions_def row_to_submission_def loads_dumps)

lemma no_submissions_of_unknown:
  assumes "db_inv d" "gid \<notin> set (map r_id (grants d))"
  shows "filter (\<lambda>r. s_grant_id r = gid) (submissions d) = []"
  using assms by (auto simp: db_inv_def list_all_iff filter_empty_conv)

lemma identify_apply_submit:
  assumes "reachable d0" "gid \<notin> set (map r_id (grants d0))"
    "sid \<notin> set (map s_id (submissions d0))"
  shows "\<exists>g r sub.
           fst (submit
                  (snd (apply_grant
                          (snd (identify d0 gid now0 title funder amount deadline grant_type
                                  purpose requirements contacts assigned_to))
                          gid notes1 assigned1 now1))
                  gid notes submitted_by documents sid now created now2) = Inr (Some g)
         \<and> g_status g = SUBMITTED
         \<and> stored (snd (submit
                  (snd (apply_grant
                          (snd (identify d0 gid now0 title funder amount deadline grant_type
                                  purpose requirements contacts assigned_to))
                          gid notes1 assigned1 now1))
                  gid notes submitted_by documents sid now created now2)) gid = Some r
         \<and> r_status r = ''submitted''
         \<and> get_submissions (snd (submit
                  (snd (apply_grant
                          (snd (identify d0 gid now0 title funder amount deadline grant_type
                                  purpose requirements contacts assigned_to))
                          gid notes1 assigned1 now1))
                  gid notes submitted_by documents sid now created now2)) gid = Inr [sub]"
proof -
  define d1 where "d1 = snd (identify d0 gid now0 title funder amount deadline grant_type purpose
                        requirements contacts assigned_to)"
  define d2 where "d2 = snd (apply_grant d1 gid notes1 assigned1 now1)"
  define res where "res = submit d2 gid notes submitted_by documents sid now created now2"
  have inv: "db_inv d0" using assms(1) by (rule reachable_inv)
  obtain g0 where g0: "identify d0 gid now0 title funder amount deadline grant_type purpose
                         requirements contacts assigned_to
                       = (Inr g0, d0\<lparr>grants := grants d0 @ [grant_to_row g0]\<rparr>)"
      "g_id g0 = gid"
    using identify_fresh [OF assms(2)] by blast
  have d1: "d1 = d0\<lparr>grants := grants d0 @ [grant_to_row g0]\<rparr>"
    by (simp add: d1_def g0(1))
  have s1: "stored d1 gid = Some (grant_to_row g0)"
    unfolding d1 using assms(2) by (rule stored_append_new) (simp add: grant_to_row_def g0(2))
  obtain g1 where g1: "row_to_grant (grant_to_row g0) = Inr g1"
    by (simp add: row_to_grant_of_grant)
  have t: "transition d1 gid APPLYING notes1 now1
             = (Inr (Some (moved_grant APPLYING notes1 now1 g1)),
                update_grant (moved_row APPLYING notes1 now1) gid d1)"
    using s1 g1 by (rule transition_existing)
  have d2: "d2 = update_grant (moved_row APPLYING notes1 now1) gid d1"
    by (simp add: d2_def apply_grant_def t)
  have s2: "stored d2 gid = Some (moved_row APPLYING notes1 now1 (grant_to_row g0))"
    unfolding d2 using s1 by (rule stored_moved)
  have r2: "row_to_grant (moved_row APPLYING notes1 now1 (grant_to_row g0))
              = Inr (moved_grant APPLYING notes1 now1 g1)"
    using g1 by (rule row_to_grant_moved)
  have subs2: "submissions d2 = submissions d0"
    by (simp add: d2 d1 update_grant_other)
  have fresh: "sid \<notin> set (map s_id (submissions d2))"
    using assms(3) by (simp add: subs2)
  define row where "row = \<lparr>s_id = sid, s_grant_id = gid, s_submitted_at = now, s_notes = notes,
                             s_submitted_by = submitted_by,
                             s_documents = json_dumps (or_empty documents),
                             s_created_at = created\<rparr>"
  have res: "res = (Inr (Some (moved_grant SUBMITTED [] now2 (moved_grant APPLYING notes1 now1 g1))),
                    update_grant (moved_row SUBMITTED [] now2) gid
                      (d2\<lparr>submissions := submissions d2 @ [row]\<rparr>))"
    unfolding res_def submit_existing [OF s2 r2] row_def using fresh by simp
  have s3: "stored (snd res) gid
              = Some (moved_row SUBMITTED [] now2 (moved_row APPLYING notes1 now1 (grant_to_row g0)))"
    unfolding res snd_conv
    by (rule stored_moved) (simp add: stored_submissions_update s2)
  have f: "filter (\<lambda>r. s_grant_id r = gid) (submissions (snd res)) = [row]"
    using no_submissions_of_unknown [OF inv assms(2)]
    by (simp add: res update_grant_other subs2 row_def)
  obtain sub where sub: "get_submissions (snd res) gid = Inr [sub]"
    using get_submissions_single [OF f, of "or_empty documents"] by (auto simp: row_def)
  have "\<exists>g r sub. fst res = Inr (Some g) \<and> g_status g = SUBMITTED
           \<and> stored (snd res) gid = Some r \<and> r_status r = ''submitted''
           \<and> get_submissions (snd res) gid = Inr [sub]"
    using s3 sub by (simp add: res moved_grant_status moved_row_status)
  then show ?thesis
    unfolding res_def d2_def d1_def .
qed

lemma get_submitted_grant: "get_grant submitted_db ''id-1'' = Inr (Some submitted_grant)"
  by code_simp

lemma submitted_db_ids: "map s_id (submissions submitted_db) = [''sub-1'']"
  by code_simp

text \<open>
  C1. For a grant that \<^verbatim>\<open>get_grant\<close> finds, \<^verbatim>\<open>submit\<close> either does both writes or none.
  When the identifier drawn for the submission is unused, it appends exactly one row
  to the table of submissions (owned by the grant, with the metadata given), leaves the
  grant's row with status \<^verbatim>\<open>submitted\<close>, returns the grant with that status, and touches
  neither the notes nor any identifier. When the insert fails (the identifier is
  taken, the only failure of the insert in the model), \<^verbatim>\<open>submit\<close> raises and the whole
  database, so the grant's status too, is what it was. In particular, from any
  reachable state, \<^verbatim>\<open>identify\<close> then \<^verbatim>\<open>apply\<close> then one \<^verbatim>\<open>submit\<close> leave the grant with
  status \<^verbatim>\<open>submitted\<close> and \<^verbatim>\<open>get_submissions\<close> returns exactly one submission for it.
\<close>

theorem submit_inserts_then_transitions:
  "(get_grant d grant_id = Inr (Some grant) \<longrightarrow>
      (uid \<notin> set (map s_id (submissions d)) \<longrightarrow>
           (\<exists>g' r'.
               fst (submit d grant_id nts submitted_by documents uid now created now2)
                 = Inr (Some g')
             \<and> g_status g' = SUBMITTED
             \<and> submissions (snd (submit d grant_id nts submitted_by documents uid now
                                    created now2))
                 = submissions d @
                   [\<lparr>s_id = uid, s_grant_id = grant_id, s_submitted_at = now,
                     s_notes = nts, s_submitted_by = submitted_by,
                     s_documents = json_dumps (or_empty documents), s_created_at = created\<rparr>]
             \<and> stored (snd (submit d grant_id nts submitted_by documents uid now created
                               now2))
                   grant_id = Some r'
             \<and> r_status r' = ''submitted''
             \<and> grant_notes (snd (submit d grant_id nts submitted_by documents uid now
                                    created now2))
                 = grant_notes d
             \<and> map r_id (grants (snd (submit d grant_id nts submitted_by documents uid now
                                         created now2)))
                 = map r_id (grants d)))
       \<and> (uid \<in> set (map s_id (submissions d)) \<longrightarrow>
            submit d grant_id nts submitted_by documents uid now created now2
              = (Inl IntegrityError, d)))
   \<and> (reachable d0 \<and> gid \<notin> set (map r_id (grants d0))
        \<and> sid \<notin> set (map s_id (submissions d0)) \<longrightarrow>
        (\<exists>g r sub.
           fst (submit
                  (snd (apply_grant
                          (snd (identify d0 gid now0 title funder amount deadline grant_type
                                  purpose requirements contacts assigned_to))
                          gid notes1 assigned1 now1))
                  gid notes2 submitted_by2 documents2 sid now3 created3 now4) = Inr (Some g)
         \<and> g_status g = SUBMITTED
         \<and> stored (snd (submit
                  (snd (apply_grant
                          (snd (identify d0 gid now0 title funder amount deadline grant_type
                                  purpose requirements contacts assigned_to))
                          gid notes1 assigned1 now1))
                  gid notes2 submitted_by2 documents2 sid now3 created3 now4)) gid = Some r
         \<and> r_status r = ''submitted''
         \<and> get_submissions (snd (submit
                  (snd (apply_grant
                          (snd (identify d0 gid now0 title funder amount deadline grant_type
                                  purpose requirements contacts assigned_to))
                          gid notes1 assigned1 now1))
                  gid notes2 submitted_by2 documents2 sid now3 created3 now4)) gid = Inr [sub]))"
  (is "(?A \<longrightarrow> ?P) \<and> (?B \<longrightarrow> ?Q)")
proof (rule conjI)
  show "?A \<longrightarrow> ?P"
    by (rule impI) (rule submit_on_existing)
next
  show "?B \<longrightarrow> ?Q"
    by (rule impI, elim conjE) (rule identify_apply_submit, assumption+)
qed

theorem submit_inserts_then_transitions_witness:
  "get_grant one_grant_db ''id-1'' = Inr (Some one_grant)
   \<and> ''sub-1'' \<notin> set (map s_id (submissions one_grant_db))
   \<and> (\<exists>g' r'.
         fst (submit one_grant_db ''id-1'' [] ''Alice'' None ''sub-1'' ''2025-01-02T00:00:00''
                ''2025-01-02T00:00:01'' ''2025-01-02T00:00:02'') = Inr (Some g')
       \<and> g_status g' = SUBMITTED
       \<and> submissions (snd (submit one_grant_db ''id-1'' [] ''Alice'' None ''sub-1''
                ''2025-01-02T00:00:00'' ''2025-01-02T00:00:01'' ''2025-01-02T00:00:02''))
           = submissions one_grant_db @
             [\<lparr>s_id = ''sub-1'', s_grant_id = ''id-1'', s_submitted_at = ''2025-01-02T00:00:00'',
               s_notes = [], s_submitted_by = ''Alice'', s_documents = json_dumps (or_empty None),
               s_created_at = ''2025-01-02T00:00:01''\<rparr>]
       \<and> stored (snd (submit one_grant_db ''id-1'' [] ''Alice'' None ''sub-1''
                ''2025-01-02T00:00:00'' ''2025-01-02T00:00:01'' ''2025-01-02T00:00:02''))
             ''id-1'' = Some r'
       \<and> r_status r' = ''submitted''
       \<and> grant_notes (snd (submit one_grant_db ''id-1'' [] ''Alice'' None ''sub-1''
                ''2025-01-02T00:00:00'' ''2025-01-02T00:00:01'' ''2025-01-02T00:00:02''))
           = grant_notes one_grant_db
       \<and> map r_id (grants (snd (submit one_grant_db ''id-1'' [] ''Alice'' None ''sub-1''
                ''2025-01-02T00:00:00'' ''2025-01-02T00:00:01'' ''2025-01-02T00:00:02'')))
           = map r_id (grants one_grant_db))
   \<and> get_grant submitted_db ''id-1'' = Inr (Some submitted_grant)
   \<and> ''sub-1'' \<in> set (map s_id (submissions submitted_db))
   \<and> submit submitted_db ''id-1'' [] ''Alice'' None ''sub-1'' ''2025-01-03T00:00:00''
        ''2025-01-03T00:00:01'' ''2025-01-03T00:00:02'' = (Inl IntegrityError, submitted_db)
   \<and> reachable init_db
   \<and> ''id-1'' \<notin> set (map r_id (grants init_db))
   \<and> ''sub-1'' \<notin> set (map s_id (submissions init_db))
   \<and> (\<exists>g r sub.
           fst (submit
                  (snd (apply_grant
                          (snd (identify init_db ''id-1'' ''2025-01-01T00:00:00'' ''Grant''
                                  ''Funder'' 50000 None FOUNDATION [] None None []))
                          ''id-1'' [] [] ''2025-01-01T00:00:01''))
                  ''id-1'' [] ''Alice'' None ''sub-1'' ''2025-01-02T00:00:00''
                  ''2025-01-02T00:00:01'' ''2025-01-02T00:00:02'') = Inr (Some g)
         \<and> g_status g = SUBMITTED
         \<and> stored (snd (submit
                  (snd (apply_grant
                          (snd (identify init_db ''id-1'' ''2025-01-01T00:00:00'' ''Grant''
                                  ''Funder'' 50000 None FOUNDATION [] None None []))
                          ''id-1'' [] [] ''2025-01-01T00:00:01''))
                  ''id-1'' [] ''Alice'' None ''sub-1'' ''2025-01-02T00:00:00''
                  ''2025-01-02T00:00:01'' ''2025-01-02T00:00:02'')) ''id-1'' = Some r
         \<and> r_status r = ''submitted''
         \<and> get_submissions (snd (submit
                  (snd (apply_grant
                          (snd (identify init_db ''id-1'' ''2025-01-01T00:00:00'' ''Grant''
                                  ''Funder'' 50000 None FOUNDATION [] None None []))
                          ''id-1'' [] [] ''2025-01-01T00:00:01''))
                  ''id-1'' [] ''Alice'' None ''sub-1'' ''2025-01-02T00:00:00''
                  ''2025-01-02T00:00:01'' ''2025-01-02T00:00:02'')) ''id-1'' = Inr [sub])"
proof -
  have f1: "''sub-1'' \<notin> set (map s_id (submissions one_grant_db))"
    by (simp add: one_grant_db_eq)
  have f2: "''sub-1'' \<in> set (map s_id (submissions submitted_db))"
    by (simp add: submitted_db_ids)
  have f3: "''id-1'' \<notin> set (map r_id (grants init_db))"
      "''sub-1'' \<notin> set (map s_id (submissions init_db))"
    by (simp_all add: init_db_def)
  note t = submit_inserts_then_transitions
  note a = t [where d = one_grant_db and grant = one_grant and uid = "''sub-1''",
      THEN conjunct1, THEN mp, OF get_one_grant, THEN conjunct1, THEN mp, OF f1]
  note b = t [where d = submitted_db and grant = submitted_grant and uid = "''sub-1''",
      THEN conjunct1, THEN mp, OF get_submitted_grant, THEN conjunct2, THEN mp, OF f2]
  note c = t [where ?d0.0 = init_db and gid = "''id-1''" and sid = "''sub-1''",
      THEN conjunct2, THEN mp, OF conjI [OF reachable_init conjI [OF f3]]]
  show ?thesis
    by (intro conjI get_one_grant f1 a get_submitted_grant f2 b reachable_init f3 c)
qed

section \<open>The success rate\<close>

subsection \<open>Counting by status\<close>






subsection \<open>The error of the two roundings\<close>














section \<open>The assignee\<close>

lemma update_grant_assigned_to:
  "(\<And>r. r_assigned_to (f r) = r_assigned_to r) \<Longrightarrow>
   map r_assigned_to (grants (update_grant f gid d)) = map r_assigned_to (grants d)"
  by (simp add: update_grant_def)

lemma transition_assigned_to:
  "map r_assigned_to (grants (snd (transition d grant_id st notes now)))
     = map r_assigned_to (grants d)"
  by (simp add: transition_def update_grant_assigned_to Let_def split: sum.splits option.splits)

text \<open>
  C10. \<^verbatim>\<open>apply\<close> accepts an argument \<^verbatim>\<open>assigned_to\<close> and does nothing with it: the result
  and the database after the call are the same for any two values of the argument, and
  the column \<^verbatim>\<open>assigned_to\<close> of every row (so of the grant applied for, when it exists) is
  after the call what it was before.
\<close>

theorem apply_ignores_assigned_to:
  "apply_grant d grant_id notes assigned_to now = apply_grant d grant_id notes assigned_to' now
   \<and> map r_assigned_to (grants (snd (apply_grant d grant_id notes assigned_to now)))
       = map r_assigned_to (grants d)"
  by (simp add: apply_grant_def transition_assigned_to)

end
